theory Spec2Isabelle
  imports Complex_Main "HOL-Library.Product_Lexorder" "HOL-Library.Sublist" "HOL-Library.Multiset"
    "HOL-Library.Log_Nat"
begin

section \<open>Trainalyze: the refund pipeline of \<^verbatim>\<open>src/app.py\<close>\<close>

text \<open>
  The pipeline functions of \<^verbatim>\<open>src/app.py\<close> (\<^verbatim>\<open>src/api/index.py\<close> holds a copy of
  them that differs in comments only) are embedded as HOL functions.

  Conventions of the embedding:
  \<^item> a Python value that may be \<^verbatim>\<open>None\<close>, and a dictionary key that may be missing, is an
    \<open>option\<close>;
  \<^item> a Python \<^verbatim>\<open>int\<close> is an \<open>int\<close>;
  \<^item> a Python \<^verbatim>\<open>float\<close> is a binary double, held as its exact value, a rational. What
    Python rounds, the model rounds: the conversion of a decimal literal, a product and
    \<^verbatim>\<open>round(x, 2)\<close> each end with the rounding to the nearest double (53 significant
    bits, ties to the even neighbour, the subnormal range included). Infinities and
    \<^verbatim>\<open>nan\<close> are outside the model, so the magnitudes stay below \<open>2 ^ 1024\<close>;
  \<^item> a Python \<^verbatim>\<open>str\<close> is a \<open>string\<close>; the case conversions and character classes are
    the ones of the ASCII range, and characters outside that range are left alone.
\<close>

subsection \<open>Python built-ins\<close>

text \<open>Truthiness of an optional number: \<^verbatim>\<open>None\<close> and zero are false.\<close>

definition truthy_int :: "int option \<Rightarrow> bool" where
  "truthy_int v = (case v of None \<Rightarrow> False | Some n \<Rightarrow> n \<noteq> 0)"

definition truthy_float :: "rat option \<Rightarrow> bool" where
  "truthy_float v = (case v of None \<Rightarrow> False | Some x \<Rightarrow> x \<noteq> 0)"

text \<open>Truthiness of an optional string: \<^verbatim>\<open>None\<close> and the empty string are false.\<close>

definition truthy_str :: "string option \<Rightarrow> bool" where
  "truthy_str v = (case v of None \<Rightarrow> False | Some s \<Rightarrow> s \<noteq> [])"

text \<open>\<^verbatim>\<open>round(x)\<close> to an integer, ties to even.\<close>

definition round_half_even :: "rat \<Rightarrow> int" where
  "round_half_even x =
     (let f = \<lfloor>x\<rfloor>; d = x - of_int f
      in if d < 1 / 2 then f
         else if 1 / 2 < d then f + 1
         else if even f then f else f + 1)"

text \<open>The exponent of a number other than zero: \<open>2 ^ e \<le> \<bar>x\<bar> < 2 ^ (e + 1)\<close>. The
  difference of the bit lengths of numerator and denominator is this exponent or one
  more.\<close>

definition float_exponent :: "rat \<Rightarrow> int" where
  "float_exponent x =
     (let (p, q) = quotient_of \<bar>x\<bar>; d = bitlen p - bitlen q
      in if 2 powi d \<le> \<bar>x\<bar> then d else d - 1)"

text \<open>The double nearest to a number: a multiple of the unit in the last place, which is
  \<open>2 ^ (e - 52)\<close> for a number of exponent \<open>e\<close> and \<open>2 ^ (- 1074)\<close> in the subnormal
  range; ties go to the even multiple.\<close>

definition nearest_double :: "rat \<Rightarrow> rat" where
  "nearest_double x =
     (if x = 0 then 0
      else let ulp = 2 powi (max (float_exponent x) (- 1022) - 52)
           in of_int (round_half_even (x / ulp)) * ulp)"

text \<open>\<^verbatim>\<open>float(s)\<close> for a decimal literal \<open>s\<close>, given by the number it writes.\<close>

definition py_float :: "rat \<Rightarrow> rat" where
  "py_float literal = nearest_double literal"

text \<open>\<^verbatim>\<open>x * y\<close> on two floats.\<close>

definition py_mul :: "rat \<Rightarrow> rat \<Rightarrow> rat" where
  "py_mul x y = nearest_double (x * y)"

text \<open>\<^verbatim>\<open>round(x, 2)\<close> on a float: the exact value of \<open>x\<close> is rounded to two decimal
  places, ties to even, and the decimal result is converted back to a double.\<close>

definition py_round2 :: "rat \<Rightarrow> rat" where
  "py_round2 x = nearest_double (of_int (round_half_even (x * 100)) / 100)"

text \<open>\<^verbatim>\<open>int(x)\<close> of a float: truncation towards zero.\<close>

definition py_int :: "rat \<Rightarrow> int" where
  "py_int x = (if 0 \<le> x then \<lfloor>x\<rfloor> else \<lceil>x\<rceil>)"

subsection \<open>Configuration tables\<close>

datatype scheme_name = standard | delay_repay_15 | tfl

text \<open>\<^verbatim>\<open>DELAY_REPAY_SCHEMES\<close>: each scheme is a dictionary from a threshold in minutes to the
  share of the price paid back, kept in the order the source writes it.\<close>

fun DELAY_REPAY_SCHEMES :: "scheme_name \<Rightarrow> (int \<times> rat) list" where
  "DELAY_REPAY_SCHEMES standard = [(15, 1 / 4), (30, 1 / 2), (60, 1)]"
| "DELAY_REPAY_SCHEMES delay_repay_15 = [(15, 1 / 4), (30, 1 / 2), (60, 1), (120, 1)]"
| "DELAY_REPAY_SCHEMES tfl = [(15, 1)]"

definition DR15_OPERATORS :: "string list" where
  "DR15_OPERATORS =
     [''LNER'', ''Avanti West Coast'', ''Great Western Railway'', ''GWR'', ''c2c'',
      ''Greater Anglia'', ''Southeastern'', ''TransPennine Express'',
      ''East Midlands Railway'', ''Chiltern Railways'', ''CrossCountry'']"

subsection \<open>\<^verbatim>\<open>calculate_refund\<close>\<close>

text \<open>\<^verbatim>\<open>sorted(scheme.items(), reverse=True)\<close>: the items are pairs, compared
  lexicographically; the keys of a dictionary are distinct, so no two items are equal.\<close>

definition sorted_reverse :: "(int \<times> rat) list \<Rightarrow> (int \<times> rat) list" where
  "sorted_reverse items = rev (sort items)"

text \<open>The \<^verbatim>\<open>for threshold, pct in ...\<close> loop with its \<^verbatim>\<open>return\<close> inside, and the
  \<^verbatim>\<open>return None, None\<close> after it.\<close>

fun first_threshold :: "int \<Rightarrow> rat \<Rightarrow> (int \<times> rat) list \<Rightarrow> rat option \<times> int option" where
  "first_threshold delay_mins price [] = (None, None)"
| "first_threshold delay_mins price ((threshold, pct) # rest) =
     (if threshold \<le> delay_mins
      then (Some (py_round2 (py_mul price pct)), Some (py_int (py_mul pct 100)))
      else first_threshold delay_mins price rest)"

definition select_scheme :: "string option \<Rightarrow> scheme_name" where
  "select_scheme operator =
     (if operator = Some ''TfL'' then tfl
      else if (\<exists>name \<in> set DR15_OPERATORS. operator = Some name) then delay_repay_15
      else standard)"

definition calculate_refund ::
  "int option \<Rightarrow> rat option \<Rightarrow> string option \<Rightarrow> rat option \<times> int option" where
  "calculate_refund delay_mins price operator =
     (case delay_mins of
        None \<Rightarrow> (None, None)
      | Some d \<Rightarrow>
          (case price of
             None \<Rightarrow> (None, None)
           | Some p \<Rightarrow>
               if d = 0 \<or> p = 0 then (None, None)
               else first_threshold d p
                      (sorted_reverse (DELAY_REPAY_SCHEMES (select_scheme operator)))))"

subsection \<open>Strings\<close>

text \<open>\<^verbatim>\<open>str.lower()\<close> and \<^verbatim>\<open>str.upper()\<close> on the ASCII letters.\<close>

definition lower_char :: "char \<Rightarrow> char" where
  "lower_char c =
     (let n = (of_char c :: nat) in if 65 \<le> n \<and> n \<le> 90 then char_of (n + 32) else c)"

definition upper_char :: "char \<Rightarrow> char" where
  "upper_char c =
     (let n = (of_char c :: nat) in if 97 \<le> n \<and> n \<le> 122 then char_of (n - 32) else c)"

definition lower :: "string \<Rightarrow> string" where
  "lower s = map lower_char s"

definition upper :: "string \<Rightarrow> string" where
  "upper s = map upper_char s"

text \<open>\<^verbatim>\<open>kw in text\<close> for two strings: \<open>kw\<close> occurs in \<open>text\<close> as a contiguous piece.\<close>

definition py_in :: "string \<Rightarrow> string \<Rightarrow> bool" where
  "py_in kw text = sublist kw text"

text \<open>\<^verbatim>\<open>any(kw in text for kw in kws)\<close>.\<close>

definition any_kw_in :: "string list \<Rightarrow> string \<Rightarrow> bool" where
  "any_kw_in kws text = list_ex (\<lambda>kw. py_in kw text) kws"

subsection \<open>\<^verbatim>\<open>categorise_email\<close>\<close>

definition categorise_email :: "string \<Rightarrow> string \<Rightarrow> string \<Rightarrow> string" where
  "categorise_email subject body sender =
     (let text = lower (subject @ '' '' @ body) in
      if any_kw_in [''delay repay'', ''compensation claim'', ''your claim'', ''delay compensation''] text
      then ''delay_claim''
      else if any_kw_in [''refund'', ''money back'', ''reimbursement'', ''credited''] text
      then ''refund''
      else if any_kw_in [''cancelled'', ''cancellation'', ''service disruption'', ''not running''] text
      then ''cancellation''
      else if any_kw_in [''delayed'', ''delay'', ''late'', ''disruption''] text
      then ''delay''
      else if any_kw_in [''booking confirmation'', ''e-ticket'', ''your ticket'', ''booking reference''] text
      then ''booking''
      else if any_kw_in [''journey history'', ''oyster statement'', ''contactless statement''] text
      then ''statement''
      else if any_kw_in [''receipt'', ''payment'', ''invoice''] text
      then ''receipt''
      else ''other'')"

subsection \<open>\<^verbatim>\<open>extract_data\<close>: the delay duration\<close>

text \<open>
  The regular expressions of \<^verbatim>\<open>extract_data\<close> are searched by Python's backtracking
  matcher. The fragment of the pattern language that the delay pattern uses is embedded
  with the matcher's own order of attempts: \<open>rx_match r s\<close> lists, first attempt first,
  every way \<open>r\<close> matches a prefix of \<open>s\<close>, each with the texts of its groups and the rest
  of \<open>s\<close>. Literals are compared under \<^verbatim>\<open>re.IGNORECASE\<close>; repetitions are greedy.
\<close>

datatype char_class = Digits | Spaces

text \<open>\<^verbatim>\<open>\d\<close> and \<^verbatim>\<open>\s\<close> in the ASCII range (for a \<^verbatim>\<open>str\<close> pattern, \<^verbatim>\<open>\s\<close> takes the four
  separators 0x1C to 0x1F as well).\<close>

fun in_class :: "char_class \<Rightarrow> char \<Rightarrow> bool" where
  "in_class Digits c = (let n = (of_char c :: nat) in 48 \<le> n \<and> n \<le> 57)"
| "in_class Spaces c = (let n = (of_char c :: nat) in (9 \<le> n \<and> n \<le> 13) \<or> (28 \<le> n \<and> n \<le> 32))"

datatype regex =
    Chars string
  | Star char_class
  | Plus char_class
  | Seq regex regex
  | Alt regex regex
  | Opt regex
  | Group regex

fun rx_match :: "regex \<Rightarrow> string \<Rightarrow> (string list \<times> string) list" where
  "rx_match (Chars p) s =
     (if length p \<le> length s \<and> lower (take (length p) s) = lower p
      then [([], drop (length p) s)] else [])"
| "rx_match (Star cls) s =
     map (\<lambda>k. ([], drop k s)) (rev [0 ..< Suc (length (takeWhile (in_class cls) s))])"
| "rx_match (Plus cls) s =
     map (\<lambda>k. ([], drop k s)) (rev [1 ..< Suc (length (takeWhile (in_class cls) s))])"
| "rx_match (Seq a b) s =
     concat (map (\<lambda>(g1, r1). map (\<lambda>(g2, r2). (g1 @ g2, r2)) (rx_match b r1)) (rx_match a s))"
| "rx_match (Alt a b) s = rx_match a s @ rx_match b s"
| "rx_match (Opt a) s = rx_match a s @ [([], s)]"
| "rx_match (Group a) s =
     map (\<lambda>(g, r). (take (length s - length r) s # g, r)) (rx_match a s)"

text \<open>\<^verbatim>\<open>re.search\<close>: the leftmost start at which the pattern matches, and there the
  matcher's first match; the result is \<^verbatim>\<open>group(0)\<close> and the list of the groups.\<close>

fun re_search :: "regex \<Rightarrow> string \<Rightarrow> (string \<times> string list) option" where
  "re_search r [] =
     (case rx_match r [] of
        [] \<Rightarrow> None
      | (g, rest) # _ \<Rightarrow> Some ([], g))"
| "re_search r (c # cs) =
     (case rx_match r (c # cs) of
        [] \<Rightarrow> re_search r cs
      | (g, rest) # _ \<Rightarrow> Some (take (length (c # cs) - length rest) (c # cs), g))"

text \<open>\<^verbatim>\<open>(\d+)\s*(?:minute|min|hour|hr)s?\s*(?:late|delay)\<close>\<close>

definition delay_pattern :: regex where
  "delay_pattern =
     Seq (Group (Plus Digits))
    (Seq (Star Spaces)
    (Seq (Alt (Chars ''minute'') (Alt (Chars ''min'') (Alt (Chars ''hour'') (Chars ''hr''))))
    (Seq (Opt (Chars ''s''))
    (Seq (Star Spaces)
         (Alt (Chars ''late'') (Chars ''delay''))))))"

text \<open>\<^verbatim>\<open>int(s)\<close> of a string of decimal digits.\<close>

definition int_of_digits :: "string \<Rightarrow> int" where
  "int_of_digits s = foldl (\<lambda>n c. 10 * n + (int (of_char c) - 48)) 0 s"

text \<open>The delay block of \<^verbatim>\<open>extract_data\<close>: the value stored under \<^verbatim>\<open>delay_mins\<close>, if any.\<close>

definition extract_delay_mins :: "string \<Rightarrow> string \<Rightarrow> int option" where
  "extract_delay_mins subject body =
     (let text = subject @ '' '' @ body in
      case re_search delay_pattern text of
        None \<Rightarrow> None
      | Some (group0, groups) \<Rightarrow>
          (case groups of
             [] \<Rightarrow> None
           | group1 # _ \<Rightarrow>
               (let delay = int_of_digits group1 in
                Some (if py_in ''hour'' (lower group0) then delay * 60 else delay))))"

subsection \<open>\<^verbatim>\<open>extract_data\<close>: the stations\<close>

definition UK_STATIONS :: "string list" where
  "UK_STATIONS =
     [''London Euston'', ''London Kings Cross'', ''London St Pancras'', ''London Paddington'',
      ''London Victoria'', ''London Waterloo'', ''London Liverpool Street'', ''London Bridge'',
      ''Manchester Piccadilly'', ''Birmingham New Street'', ''Leeds'', ''Glasgow Central'',
      ''Edinburgh Waverley'', ''Bristol Temple Meads'', ''Liverpool Lime Street'', ''Newcastle'',
      ''Sheffield'', ''Nottingham'', ''Leicester'', ''Cambridge'', ''Oxford'', ''Brighton'', ''Reading'',
      ''Cardiff Central'', ''York'', ''Peterborough'', ''Milton Keynes'', ''Crewe'', ''Preston'']"

text \<open>The loop that fills \<^verbatim>\<open>found_stations\<close>.\<close>

definition found_stations :: "string \<Rightarrow> string list" where
  "found_stations text = filter (\<lambda>station. py_in (lower station) (lower text)) UK_STATIONS"

text \<open>The values stored under \<^verbatim>\<open>origin\<close> and \<^verbatim>\<open>destination\<close>, if any.\<close>

definition extract_stations :: "string \<Rightarrow> string \<Rightarrow> string option \<times> string option" where
  "extract_stations subject body =
     (let text = subject @ '' '' @ body; found = found_stations text in
      if 2 \<le> length found then (Some (found ! 0), Some (found ! 1))
      else if length found = 1 then (Some (found ! 0), None)
      else (None, None))"

subsection \<open>\<^verbatim>\<open>get_claim_deadline\<close>\<close>

text \<open>
  The function calls the standard library (\<^verbatim>\<open>datetime.fromisoformat\<close>,
  \<^verbatim>\<open>datetime.strptime\<close>, \<^verbatim>\<open>strftime\<close>, \<^verbatim>\<open>datetime.now\<close>), which is not code of the
  repository. The parsers and the formatter are parameters of the embedding, and so is
  the clock; what the function itself does with their results is modelled in full:
  the arithmetic on the parsed date, the comparison with the clock, and every exception
  that a step can raise, with the handler that receives it.

  A \<^verbatim>\<open>datetime\<close> is its day (the proleptic Gregorian ordinal, 1 for 0001-01-01 up to
  3652059 for 9999-12-31), its time of day in microseconds, and the offset of its time
  zone from UTC in microseconds, absent for a naive value.
\<close>

record py_datetime =
  dt_ordinal :: int
  dt_micros :: int
  dt_utcoffset :: "int option"

datatype py_exception = ValueError | OverflowError | TypeError

text \<open>A parser returns \<open>None\<close> where the library raises \<^verbatim>\<open>ValueError\<close>.\<close>

record py_stdlib =
  fromisoformat :: "string \<Rightarrow> py_datetime option"
  strptime :: "string \<Rightarrow> string \<Rightarrow> py_datetime option"
  strftime :: "py_datetime \<Rightarrow> string \<Rightarrow> string"

definition MAXORDINAL :: int where
  "MAXORDINAL = 3652059"

text \<open>\<^verbatim>\<open>dt + timedelta(days=n)\<close>: the day moves, the time of day and the zone stay; a day
  outside the calendar raises \<^verbatim>\<open>OverflowError\<close>.\<close>

definition add_days :: "py_datetime \<Rightarrow> int \<Rightarrow> py_exception + py_datetime" where
  "add_days dt n =
     (let day = dt_ordinal dt + n in
      if 0 < day \<and> day \<le> MAXORDINAL then Inr (dt\<lparr>dt_ordinal := day\<rparr>)
      else Inl OverflowError)"

text \<open>\<^verbatim>\<open>a > b\<close> on two \<^verbatim>\<open>datetime\<close> values: a naive and an aware value do not compare
  (\<^verbatim>\<open>TypeError\<close>); two naive values compare by day and time, two aware ones by their
  instants.\<close>

definition utc_micros :: "py_datetime \<Rightarrow> int" where
  "utc_micros dt =
     dt_ordinal dt * 86400000000 + dt_micros dt -
     (case dt_utcoffset dt of None \<Rightarrow> 0 | Some off \<Rightarrow> off)"

definition datetime_gt :: "py_datetime \<Rightarrow> py_datetime \<Rightarrow> py_exception + bool" where
  "datetime_gt a b =
     (if (dt_utcoffset a = None) \<noteq> (dt_utcoffset b = None) then Inl TypeError
      else Inr (utc_micros b < utc_micros a))"

text \<open>\<^verbatim>\<open>datetime.now()\<close>: the naive local time that the clock shows, given as day and time
  of day.\<close>

definition datetime_now :: "int \<times> int \<Rightarrow> py_datetime" where
  "datetime_now clock = \<lparr>dt_ordinal = fst clock, dt_micros = snd clock, dt_utcoffset = None\<rparr>"

text \<open>\<^verbatim>\<open>s.replace('Z', '+00:00')\<close>\<close>

definition replace_Z :: "string \<Rightarrow> string" where
  "replace_Z s = concat (map (\<lambda>c. if c = CHR ''Z'' then ''+00:00'' else [c]) s)"

definition CLAIM_DEADLINES :: "(string \<times> int) list" where
  "CLAIM_DEADLINES =
     [(''default'', 28), (''LNER'', 28), (''Avanti West Coast'', 28),
      (''Great Western Railway'', 28), (''GWR'', 28), (''TfL'', 28),
      (''National Express'', 30)]"

text \<open>\<^verbatim>\<open>CLAIM_DEADLINES.get(operator, CLAIM_DEADLINES['default'])\<close>; the key
  \<^verbatim>\<open>'default'\<close> is in the table, so its lookup does not fail.\<close>

definition deadline_days_of :: "string option \<Rightarrow> int" where
  "deadline_days_of operator =
     (let dflt = (case map_of CLAIM_DEADLINES ''default'' of Some n \<Rightarrow> n | None \<Rightarrow> 0) in
      case operator of
        None \<Rightarrow> dflt
      | Some name \<Rightarrow> (case map_of CLAIM_DEADLINES name of Some n \<Rightarrow> n | None \<Rightarrow> dflt))"

definition date_formats :: "string list" where
  "date_formats = [''%d/%m/%Y'', ''%d-%m-%Y'', ''%Y-%m-%d'', ''%d %b %Y'', ''%d %B %Y'']"

text \<open>The inner loop over the formats: a format that raises is skipped, the first that
  parses ends the loop; \<open>None\<close> is \<^verbatim>\<open>jdate\<close> left at \<^verbatim>\<open>None\<close>.\<close>

fun try_formats :: "py_stdlib \<Rightarrow> string \<Rightarrow> string list \<Rightarrow> py_datetime option" where
  "try_formats lib s [] = None"
| "try_formats lib s (fmt # fmts) =
     (case strptime lib s fmt of
        Some jdate \<Rightarrow> Some jdate
      | None \<Rightarrow> try_formats lib s fmts)"

text \<open>The first half of the \<^verbatim>\<open>try\<close> block: the value of \<^verbatim>\<open>jdate\<close>, or the exception
  raised.\<close>

definition parse_journey_date :: "py_stdlib \<Rightarrow> string \<Rightarrow> py_exception + py_datetime option" where
  "parse_journey_date lib s =
     (if CHR ''T'' \<in> set s
      then (case fromisoformat lib (replace_Z s) of
              None \<Rightarrow> Inl ValueError
            | Some jdate \<Rightarrow> Inr (Some jdate))
      else Inr (try_formats lib s date_formats))"

text \<open>The whole \<^verbatim>\<open>try\<close> block: \<open>Inl\<close> is an exception raised inside it, \<open>Inr None\<close> is the
  block left without a \<^verbatim>\<open>return\<close>, \<open>Inr (Some r)\<close> is \<^verbatim>\<open>return r\<close>. A \<^verbatim>\<open>datetime\<close> is
  always true, so \<^verbatim>\<open>if jdate\<close> tests for \<^verbatim>\<open>None\<close> only.\<close>

definition deadline_try_block ::
  "py_stdlib \<Rightarrow> int \<times> int \<Rightarrow> int \<Rightarrow> string \<Rightarrow> py_exception + (string option \<times> string) option" where
  "deadline_try_block lib clock deadline_days s =
     (case parse_journey_date lib s of
        Inl e \<Rightarrow> Inl e
      | Inr None \<Rightarrow> Inr None
      | Inr (Some jdate) \<Rightarrow>
          (case add_days jdate deadline_days of
             Inl e \<Rightarrow> Inl e
           | Inr deadline_date \<Rightarrow>
               (case datetime_gt (datetime_now clock) deadline_date of
                  Inl e \<Rightarrow> Inl e
                | Inr past \<Rightarrow>
                    Inr (Some (Some (strftime lib deadline_date ''%Y-%m-%d''),
                               if past then ''expired'' else ''active'')))))"

text \<open>The function: the early return, the \<^verbatim>\<open>try\<close> block, \<^verbatim>\<open>except: pass\<close>, and the final
  \<^verbatim>\<open>return None, 'unknown'\<close>.\<close>

definition get_claim_deadline ::
  "py_stdlib \<Rightarrow> int \<times> int \<Rightarrow> string option \<Rightarrow> string option \<Rightarrow> string option \<times> string" where
  "get_claim_deadline lib clock operator journey_date_str =
     (let deadline_days = deadline_days_of operator in
      case journey_date_str of
        None \<Rightarrow> (None, ''unknown'')
      | Some s \<Rightarrow>
          if s = [] then (None, ''unknown'')
          else (case deadline_try_block lib clock deadline_days s of
                  Inr (Some r) \<Rightarrow> r
                | Inr None \<Rightarrow> (None, ''unknown'')
                | Inl e \<Rightarrow> (None, ''unknown'')))"

text \<open>The library's results at the inputs of the examples below, as CPython gives them:
  \<^verbatim>\<open>datetime.strptime('01/01/2020', '%d/%m/%Y')\<close> is 2020-01-01 00:00 (ordinal 737425),
  \<^verbatim>\<open>datetime.strptime('31/12/9999', '%d/%m/%Y')\<close> is 9999-12-31 00:00 (ordinal 3652059),
  \<^verbatim>\<open>datetime.fromisoformat('2020-01-01T00:00:00+00:00')\<close> is 2020-01-01 00:00 in UTC, and
  \<^verbatim>\<open>strftime('%Y-%m-%d')\<close> of the day 737453 is \<^verbatim>\<open>'2020-01-29'\<close>. Every other parse of the
  sample fails and every other date is printed as the empty string: the examples do not
  reach them.\<close>

definition sample_stdlib :: py_stdlib where
  "sample_stdlib =
     \<lparr>fromisoformat = (\<lambda>s.
        if s = ''2020-01-01T00:00:00+00:00''
        then Some \<lparr>dt_ordinal = 737425, dt_micros = 0, dt_utcoffset = Some 0\<rparr>
        else None),
      strptime = (\<lambda>s fmt.
        if fmt = ''%d/%m/%Y'' \<and> s = ''01/01/2020''
        then Some \<lparr>dt_ordinal = 737425, dt_micros = 0, dt_utcoffset = None\<rparr>
        else if fmt = ''%d/%m/%Y'' \<and> s = ''31/12/9999''
        then Some \<lparr>dt_ordinal = 3652059, dt_micros = 0, dt_utcoffset = None\<rparr>
        else None),
      strftime = (\<lambda>dt fmt.
        if fmt = ''%Y-%m-%d'' \<and> dt_ordinal dt = 737453 then ''2020-01-29'' else [])\<rparr>"

subsection \<open>\<^verbatim>\<open>scan\<close>: from the enriched emails to the sorted opportunities\<close>

text \<open>
  An entry of \<^verbatim>\<open>emails\<close>: the dictionary \<^verbatim>\<open>email_data\<close>. The keys \<^verbatim>\<open>date\<close>, \<^verbatim>\<open>sender\<close>,
  \<^verbatim>\<open>subject\<close> and \<^verbatim>\<open>category\<close> are always there; the keys that \<^verbatim>\<open>extract_data\<close> adds
  may be missing.
\<close>

record email_data =
  e_date :: string
  e_sender :: string
  e_subject :: string
  e_category :: string
  e_booking_ref :: "string option"
  e_price :: "rat option"
  e_journey_date :: "string option"
  e_delay_mins :: "int option"
  e_origin :: "string option"
  e_destination :: "string option"
  e_operator :: "string option"

text \<open>An entry of \<^verbatim>\<open>opportunities\<close>.\<close>

record opportunity =
  o_date :: string
  o_journey_date :: string
  o_operator :: string
  o_booking_ref :: "string option"
  o_origin :: "string option"
  o_destination :: "string option"
  o_price :: "rat option"
  o_delay_mins :: "int option"
  o_refund_amount :: "rat option"
  o_refund_pct :: "int option"
  o_deadline :: "string option"
  o_deadline_status :: string
  o_confidence :: string
  o_subject :: string
  o_category :: string

text \<open>The three lists that the loop over the messages fills, in arrival order.\<close>

definition bookings_of :: "email_data list \<Rightarrow> email_data list" where
  "bookings_of emails = filter (\<lambda>e. e_category e = ''booking'') emails"

definition delays_of :: "email_data list \<Rightarrow> email_data list" where
  "delays_of emails =
     filter (\<lambda>e. e_category e \<noteq> ''booking'' \<and>
                 e_category e \<in> set [''delay'', ''delay_claim'', ''cancellation'']) emails"

definition refunds_of :: "email_data list \<Rightarrow> email_data list" where
  "refunds_of emails =
     filter (\<lambda>e. e_category e \<noteq> ''booking'' \<and>
                 e_category e \<notin> set [''delay'', ''delay_claim'', ''cancellation''] \<and>
                 e_category e = ''refund'') emails"

text \<open>\<^verbatim>\<open>d.get(key, '')\<close> and \<^verbatim>\<open>d.get(key) or ''\<close> for a string-valued key.\<close>

definition str_or_empty :: "string option \<Rightarrow> string" where
  "str_or_empty v = (case v of None \<Rightarrow> [] | Some s \<Rightarrow> s)"

text \<open>\<^verbatim>\<open>{r.get('booking_ref', '').upper() for r in refunds if r.get('booking_ref')}\<close>\<close>

definition refunded_refs :: "email_data list \<Rightarrow> string set" where
  "refunded_refs refunds =
     set (map (\<lambda>r. upper (str_or_empty (e_booking_ref r)))
            (filter (\<lambda>r. truthy_str (e_booking_ref r)) refunds))"

text \<open>The test before \<^verbatim>\<open>continue\<close>: the delay is taken as claimed already.\<close>

definition already_claimed :: "string set \<Rightarrow> email_data \<Rightarrow> bool" where
  "already_claimed refs delay =
     (let ref = upper (str_or_empty (e_booking_ref delay)) in ref \<noteq> [] \<and> ref \<in> refs)"

text \<open>The rest of the loop body: the dictionary appended to \<^verbatim>\<open>opportunities\<close>.\<close>

definition build_opportunity :: "py_stdlib \<Rightarrow> int \<times> int \<Rightarrow> email_data \<Rightarrow> opportunity" where
  "build_opportunity lib clock delay =
     (let price = e_price delay;
          delay_mins = e_delay_mins delay;
          operator = (case e_operator delay of None \<Rightarrow> ''Unknown'' | Some name \<Rightarrow> name);
          journey_date =
            (if truthy_str (e_journey_date delay) then str_or_empty (e_journey_date delay)
             else e_date delay);
          refund = calculate_refund delay_mins price (Some operator);
          deadline = get_claim_deadline lib clock (Some operator) (Some journey_date);
          confidence0 = ''low'';
          confidence1 =
            (if truthy_str (e_booking_ref delay) \<and> truthy_int delay_mins
             then ''medium'' else confidence0);
          confidence =
            (if truthy_str (e_booking_ref delay) \<and> truthy_int delay_mins \<and> truthy_float price
             then ''high'' else confidence1)
      in \<lparr>o_date = e_date delay,
          o_journey_date = journey_date,
          o_operator = operator,
          o_booking_ref = e_booking_ref delay,
          o_origin = e_origin delay,
          o_destination = e_destination delay,
          o_price = price,
          o_delay_mins = delay_mins,
          o_refund_amount = fst refund,
          o_refund_pct = snd refund,
          o_deadline = fst deadline,
          o_deadline_status = snd deadline,
          o_confidence = confidence,
          o_subject = take 80 (e_subject delay),
          o_category = e_category delay\<rparr>)"

text \<open>The key of \<^verbatim>\<open>opportunities.sort\<close>; the triples are compared lexicographically.\<close>

definition sort_key_of :: "opportunity \<Rightarrow> rat \<times> nat \<times> nat" where
  "sort_key_of x =
     (- (case o_refund_amount x of None \<Rightarrow> 0 | Some a \<Rightarrow> if a = 0 then 0 else a),
      if o_confidence x = ''high'' then 0 else if o_confidence x = ''medium'' then 1 else 2,
      if o_deadline_status x = ''active'' then 0 else 1)"

text \<open>The list before the sort, and \<^verbatim>\<open>opportunities\<close> as \<^verbatim>\<open>scan\<close> stores it.
  \<^verbatim>\<open>list.sort\<close> is stable, as is \<open>sort_key\<close>.\<close>

definition unsorted_opportunities ::
  "py_stdlib \<Rightarrow> int \<times> int \<Rightarrow> email_data list \<Rightarrow> opportunity list" where
  "unsorted_opportunities lib clock emails =
     (let refs = refunded_refs (refunds_of emails) in
      map (build_opportunity lib clock)
        (filter (\<lambda>delay. \<not> already_claimed refs delay) (delays_of emails)))"

definition sort_opportunities :: "opportunity list \<Rightarrow> opportunity list" where
  "sort_opportunities opportunities = sort_key sort_key_of opportunities"

definition scan_opportunities ::
  "py_stdlib \<Rightarrow> int \<times> int \<Rightarrow> email_data list \<Rightarrow> opportunity list" where
  "scan_opportunities lib clock emails =
     sort_opportunities (unsorted_opportunities lib clock emails)"

subsection \<open>The specification's wording, for comparison with the code\<close>

text \<open>The classifier as the specification words it: the keyword sets in their priority
  order, the first set with a keyword in the text gives the category, and \<^verbatim>\<open>other\<close> is the
  default.\<close>

definition keyword_sets :: "(string \<times> string list) list" where
  "keyword_sets =
     [(''delay_claim'', [''delay repay'', ''compensation claim'', ''your claim'', ''delay compensation'']),
      (''refund'', [''refund'', ''money back'', ''reimbursement'', ''credited'']),
      (''cancellation'', [''cancelled'', ''cancellation'', ''service disruption'', ''not running'']),
      (''delay'', [''delayed'', ''delay'', ''late'', ''disruption'']),
      (''booking'', [''booking confirmation'', ''e-ticket'', ''your ticket'', ''booking reference'']),
      (''statement'', [''journey history'', ''oyster statement'', ''contactless statement'']),
      (''receipt'', [''receipt'', ''payment'', ''invoice''])]"

fun first_category :: "(string \<times> string list) list \<Rightarrow> string \<Rightarrow> string" where
  "first_category [] text = ''other''"
| "first_category ((cat, kws) # rest) text =
     (if list_ex (\<lambda>kw. sublist kw text) kws then cat else first_category rest text)"

text \<open>A delay record counts as claimed, in the specification's words, when its booking
  reference, upper-cased, is not empty and equals the upper-cased booking reference of a
  record of category \<^verbatim>\<open>refund\<close> of the same scan.\<close>

definition spec_claimed :: "email_data list \<Rightarrow> email_data \<Rightarrow> bool" where
  "spec_claimed emails d =
     (case e_booking_ref d of
        None \<Rightarrow> False
      | Some x \<Rightarrow>
          upper x \<noteq> [] \<and>
          list_ex (\<lambda>r. e_category r = ''refund'' \<and>
                        (case e_booking_ref r of None \<Rightarrow> False | Some y \<Rightarrow> upper y = upper x))
            emails)"

text \<open>The order of the final list, in the specification's words: the refund amount
  descending with a missing amount counted as 0, then the confidence in the order high,
  medium, low, then the status \<^verbatim>\<open>active\<close> before every other.\<close>

definition spec_amount :: "opportunity \<Rightarrow> rat" where
  "spec_amount x = (case o_refund_amount x of None \<Rightarrow> 0 | Some a \<Rightarrow> a)"

definition spec_confidence_rank :: "opportunity \<Rightarrow> nat" where
  "spec_confidence_rank x =
     (if o_confidence x = ''high'' then 0 else if o_confidence x = ''medium'' then 1 else 2)"

definition spec_status_rank :: "opportunity \<Rightarrow> nat" where
  "spec_status_rank x = (if o_deadline_status x = ''active'' then 0 else 1)"

definition spec_before :: "opportunity \<Rightarrow> opportunity \<Rightarrow> bool" where
  "spec_before x y =
     (spec_amount y < spec_amount x \<or>
      spec_amount x = spec_amount y \<and>
        (spec_confidence_rank x < spec_confidence_rank y \<or>
         spec_confidence_rank x = spec_confidence_rank y \<and>
           spec_status_rank x \<le> spec_status_rank y))"

definition spec_tied :: "opportunity \<Rightarrow> opportunity \<Rightarrow> bool" where
  "spec_tied x y =
     (spec_amount x = spec_amount y \<and>
      spec_confidence_rank x = spec_confidence_rank y \<and>
      spec_status_rank x = spec_status_rank y)"

subsection \<open>Sample records\<close>

text \<open>Records for the examples: an LNER email with the given category, booking
  reference, delay and price, and an opportunity with the given amount, confidence and
  status.\<close>

definition example_email ::
  "string \<Rightarrow> string option \<Rightarrow> int option \<Rightarrow> rat option \<Rightarrow> email_data" where
  "example_email category booking_ref delay_mins price =
     \<lparr>e_date = ''Fri, 15 Mar 2024 10:00:00 +0000'',
      e_sender = ''LNER <noreply@lner.co.uk>'',
      e_subject = ''Your journey'',
      e_category = category,
      e_booking_ref = booking_ref,
      e_price = price,
      e_journey_date = Some ''01/01/2020'',
      e_delay_mins = delay_mins,
      e_origin = None,
      e_destination = None,
      e_operator = Some ''LNER''\<rparr>"

definition example_opportunity :: "rat option \<Rightarrow> string \<Rightarrow> string \<Rightarrow> opportunity" where
  "example_opportunity refund_amount confidence deadline_status =
     \<lparr>o_date = ''Fri, 15 Mar 2024 10:00:00 +0000'',
      o_journey_date = ''01/01/2020'',
      o_operator = ''LNER'',
      o_booking_ref = None,
      o_origin = None,
      o_destination = None,
      o_price = None,
      o_delay_mins = None,
      o_refund_amount = refund_amount,
      o_refund_pct = None,
      o_deadline = None,
      o_deadline_status = deadline_status,
      o_confidence = confidence,
      o_subject = ''Your journey'',
      o_category = ''delay''\<rparr>"

section \<open>Properties\<close>

subsection \<open>Floating-point rounding\<close>

lemma round_half_even_near: "\<bar>x - of_int (round_half_even x)\<bar> \<le> 1 / 2"
proof -
  define d where "d = x - of_int \<lfloor>x\<rfloor>"
  have d: "0 \<le> d" "d < 1"
    unfolding d_def by linarith+
  have x: "x = of_int \<lfloor>x\<rfloor> + d"
    by (simp add: d_def)
  consider "d < 1 / 2" | "1 / 2 < d" | "d = 1 / 2"
    by linarith
  then show ?thesis
  proof cases
    case 1
    then have "round_half_even x = \<lfloor>x\<rfloor>"
      by (simp add: round_half_even_def d_def Let_def)
    then show ?thesis
      using 1 d by (simp add: d_def [symmetric])
  next
    case 2
    then have "round_half_even x = \<lfloor>x\<rfloor> + 1"
      by (simp add: round_half_even_def d_def Let_def)
    then have "x - of_int (round_half_even x) = d - 1"
      by (simp add: d_def)
    then show ?thesis
      using 2 d by simp
  next
    case 3
    then have "round_half_even x = \<lfloor>x\<rfloor> \<or> round_half_even x = \<lfloor>x\<rfloor> + 1"
      by (simp add: round_half_even_def d_def Let_def)
    then have "x - of_int (round_half_even x) = d \<or> x - of_int (round_half_even x) = d - 1"
      by (auto simp: d_def)
    then show ?thesis
      using 3 by auto
  qed
qed

lemma round_half_even_unique:
  assumes "\<bar>x - of_int n\<bar> < 1 / 2"
  shows "round_half_even x = n"
proof -
  have "\<bar>of_int (round_half_even x) - (of_int n :: rat)\<bar> < 1"
    using assms round_half_even_near [of x] by linarith
  then have "\<bar>(of_int (round_half_even x - n) :: rat)\<bar> < of_int 1"
    by simp
  then have "\<bar>round_half_even x - n\<bar> < 1"
    unfolding of_int_abs [symmetric] of_int_less_iff .
  then show ?thesis
    by linarith
qed

lemma float_exponent_le:
  assumes "0 < x"
  shows "2 powi float_exponent x \<le> x"
proof -
  obtain p q where pq: "quotient_of x = (p, q)"
    by (cases "quotient_of x")
  have q: "0 < q" and x: "x = of_int p / of_int q"
    using quotient_of_denom_pos [OF pq] quotient_of_div [OF pq] by simp_all
  have p: "0 < p"
    using assms q x by (simp add: zero_less_divide_iff)
  define d where "d = bitlen p - bitlen q"
  have fe: "float_exponent x = (if 2 powi d \<le> x then d else d - 1)"
    using assms by (simp add: float_exponent_def pq d_def)
  have "2 powi (d - 1) \<le> x"
  proof -
    have bp: "1 \<le> bitlen p" "0 \<le> bitlen q"
      using p by (simp_all add: bitlen_alt_def bitlen_nonneg)
    have lo: "(2 :: rat) ^ nat (bitlen p - 1) \<le> of_int p"
      using bitlen_bounds [OF p] by (metis of_int_le_iff of_int_numeral of_int_power)
    have hi: "of_int q \<le> (2 :: rat) ^ nat (bitlen q)"
      using bitlen_bounds [OF q]
      by (metis less_imp_le of_int_le_iff of_int_numeral of_int_power)
    have "d - 1 = (bitlen p - 1) - bitlen q"
      by (simp add: d_def)
    then have "(2 :: rat) powi (d - 1) = 2 powi (bitlen p - 1) / 2 powi (bitlen q)"
      by (simp add: power_int_diff)
    also have "\<dots> = 2 ^ nat (bitlen p - 1) / 2 ^ nat (bitlen q)"
      using bp by (simp add: power_int_def)
    also have "\<dots> \<le> of_int p / 2 ^ nat (bitlen q)"
      using lo by (simp add: divide_right_mono)
    also have "\<dots> \<le> of_int p / of_int q"
      using hi p q by (simp add: frac_le)
    finally show ?thesis
      using x by simp
  qed
  then show ?thesis
    by (simp add: fe)
qed

lemma nearest_double_error:
  assumes "0 < x" "2 powi (- 1022) \<le> x"
  shows "\<bar>nearest_double x - x\<bar> \<le> x / 2 ^ 53"
proof -
  define m where "m = max (float_exponent x) (- 1022)"
  define ulp :: rat where "ulp = 2 powi (m - 52)"
  have m: "2 powi m \<le> x"
    using float_exponent_le [OF assms(1)] assms(2) by (simp add: m_def max_def)
  have ulp_pos: "0 < ulp"
    by (simp add: ulp_def)
  have "ulp = 2 powi m / 2 powi 52"
    unfolding ulp_def by (simp add: power_int_diff)
  then have ulp: "ulp = 2 powi m / 2 ^ 52"
    by (simp add: power_int_def)
  have ulp_le: "ulp \<le> x / 2 ^ 52"
    unfolding ulp using m by (simp add: divide_right_mono)
  have nd: "nearest_double x = of_int (round_half_even (x / ulp)) * ulp"
    using assms(1) by (simp add: nearest_double_def m_def ulp_def Let_def)
  have "nearest_double x - x = (of_int (round_half_even (x / ulp)) - x / ulp) * ulp"
    using ulp_pos unfolding nd by (simp add: left_diff_distrib)
  then have "\<bar>nearest_double x - x\<bar> = \<bar>x / ulp - of_int (round_half_even (x / ulp))\<bar> * ulp"
    using ulp_pos by (simp add: abs_mult abs_minus_commute)
  also have "\<dots> \<le> (1 / 2) * ulp"
    using round_half_even_near [of "x / ulp"] ulp_pos
    by (intro mult_right_mono) simp_all
  also have "\<dots> \<le> (1 / 2) * (x / 2 ^ 52)"
    using ulp_le by simp
  also have "\<dots> = x / 2 ^ 53"
    by simp
  finally show ?thesis .
qed

text \<open>A value whose hundredfold is within a half of the integer \<open>n\<close> is rounded to the
  double of \<open>n / 100\<close>.\<close>

lemma py_round2_near:
  assumes "\<bar>y * 100 - of_int n\<bar> < 1 / 2"
  shows "py_round2 y = nearest_double (of_int n / 100)"
  using round_half_even_unique [OF assms] by (simp add: py_round2_def)

text \<open>The float of a price of up to \<open>2 ^ 50\<close> pence, written with two decimal places, is
  left as it is by the product with 1.0 followed by \<^verbatim>\<open>round(x, 2)\<close>.\<close>

lemma py_round2_two_decimals:
  assumes "0 \<le> n" "n < 2 ^ 50"
  shows "py_round2 (py_mul (py_float (of_int n / 100)) 1) = py_float (of_int n / 100)"
proof (cases "n = 0")
  case True
  then show ?thesis
    by (simp add: py_round2_def py_mul_def py_float_def nearest_double_def round_half_even_def)
next
  case False
  define x :: rat where "x = of_int n / 100"
  define P where "P = nearest_double x"
  have n1: "1 \<le> n" using assms(1) False by simp
  then have x1: "1 / 100 \<le> x"
    by (simp add: x_def divide_right_mono)
  then have xpos: "0 < x" by simp
  have small: "(2 :: rat) powi (- 1022) \<le> 1 / 200"
  proof -
    have "(2 :: rat) powi (- 1022) \<le> 2 powi (- 8)"
      by (rule power_int_increasing) simp_all
    also have "\<dots> \<le> 1 / 200"
      by (simp add: power_int_def power_divide)
    finally show ?thesis .
  qed
  then have big: "2 powi (- 1022) \<le> x"
    using x1 by simp
  have e1: "\<bar>P - x\<bar> \<le> x / 2 ^ 53"
    unfolding P_def by (rule nearest_double_error [OF xpos big])
  have "x / 2 ^ 53 \<le> x / 2"
    using xpos by (intro divide_left_mono) simp_all
  then have "\<bar>P - x\<bar> \<le> x / 2"
    using e1 by linarith
  then have P_bounds: "x / 2 \<le> P" "P \<le> 2 * x"
    using xpos by linarith+
  then have Ppos: "0 < P" and Pbig: "2 powi (- 1022) \<le> P"
    using xpos x1 small by simp_all
  have e2: "\<bar>nearest_double P - P\<bar> \<le> P / 2 ^ 53"
    by (rule nearest_double_error [OF Ppos Pbig])
  have "P / 2 ^ 53 \<le> 2 * x / 2 ^ 53"
    using P_bounds(2) by (simp add: divide_right_mono)
  then have "\<bar>nearest_double P - x\<bar> \<le> x / 2 ^ 53 + 2 * x / 2 ^ 53"
    using e1 e2 by linarith
  then have "\<bar>nearest_double P - x\<bar> \<le> 3 * x / 2 ^ 53"
    by simp
  then have "100 * \<bar>nearest_double P - x\<bar> \<le> 100 * (3 * x / 2 ^ 53)"
    by simp
  moreover have "\<bar>nearest_double P * 100 - of_int n\<bar> = 100 * \<bar>nearest_double P - x\<bar>"
    by (simp add: x_def abs_if)
  moreover have "100 * (3 * x / 2 ^ 53) = 3 * of_int n / 2 ^ 53"
    by (simp add: x_def)
  moreover have "3 * of_int n / 2 ^ 53 < (1 / 2 :: rat)"
  proof -
    have "(of_int n :: rat) < of_int (2 ^ 50)"
      using assms(2) unfolding of_int_less_iff .
    then show ?thesis
      by simp
  qed
  ultimately have "\<bar>nearest_double P * 100 - of_int n\<bar> < 1 / 2"
    by linarith
  then have "py_round2 (nearest_double P) = nearest_double (of_int n / 100)"
    by (rule py_round2_near)
  then show ?thesis
    by (simp add: py_mul_def py_float_def P_def x_def)
qed

subsection \<open>The refund calculator\<close>

lemma sorted_reverse_standard:
  "sorted_reverse [(15, 1 / 4), (30, 1 / 2), (60, 1)] = [(60, 1), (30, 1 / 2), (15, 1 / 4)]"
  by (simp add: sorted_reverse_def)

lemma sorted_reverse_delay_repay_15:
  "sorted_reverse [(15, 1 / 4), (30, 1 / 2), (60, 1), (120, 1)] =
     [(120, 1), (60, 1), (30, 1 / 2), (15, 1 / 4)]"
  by (simp add: sorted_reverse_def)

lemma sorted_reverse_tfl: "sorted_reverse [(15, 1)] = [(15, 1)]"
  by (simp add: sorted_reverse_def)

text \<open>\<^verbatim>\<open>int(pct * 100)\<close> for the three percentages.\<close>

lemma py_int_pct:
  "py_int (py_mul 1 100) = 100" "py_int (py_mul (1 / 2) 100) = 50"
  "py_int (py_mul (1 / 4) 100) = 25"
  by code_simp+

lemma select_scheme_cases:
  "select_scheme operator =
     (if operator = Some ''TfL'' then tfl
      else if operator \<in> Some ` set DR15_OPERATORS then delay_repay_15 else standard)"
  by (auto simp: select_scheme_def)

lemma TfL_not_DR15: "Some ''TfL'' \<notin> Some ` set DR15_OPERATORS"
  by (simp add: DR15_OPERATORS_def)

lemma calculate_refund_tfl:
  assumes "d \<noteq> 0" "p \<noteq> 0"
  shows "calculate_refund (Some d) (Some p) (Some ''TfL'') =
     (if 15 \<le> d then (Some (py_round2 (py_mul p 1)), Some 100) else (None, None))"
  using assms
  by (simp add: calculate_refund_def select_scheme_cases sorted_reverse_tfl py_int_pct)

lemma calculate_refund_dr15:
  assumes "operator \<in> Some ` set DR15_OPERATORS" "d \<noteq> 0" "p \<noteq> 0"
  shows "calculate_refund (Some d) (Some p) operator =
     (if 60 \<le> d then (Some (py_round2 (py_mul p 1)), Some 100)
      else if 30 \<le> d then (Some (py_round2 (py_mul p (1 / 2))), Some 50)
      else if 15 \<le> d then (Some (py_round2 (py_mul p (1 / 4))), Some 25)
      else (None, None))"
proof -
  have "operator \<noteq> Some ''TfL''"
    using assms(1) TfL_not_DR15 by auto
  then have "select_scheme operator = delay_repay_15"
    using assms(1) by (simp add: select_scheme_cases)
  then show ?thesis
    using assms(2,3)
    by (simp add: calculate_refund_def sorted_reverse_delay_repay_15 py_int_pct)
qed

lemma calculate_refund_standard:
  assumes "operator \<noteq> Some ''TfL''" "operator \<notin> Some ` set DR15_OPERATORS" "d \<noteq> 0" "p \<noteq> 0"
  shows "calculate_refund (Some d) (Some p) operator =
     (if 60 \<le> d then (Some (py_round2 (py_mul p 1)), Some 100)
      else if 30 \<le> d then (Some (py_round2 (py_mul p (1 / 2))), Some 50)
      else if 15 \<le> d then (Some (py_round2 (py_mul p (1 / 4))), Some 25)
      else (None, None))"
proof -
  have "select_scheme operator = standard"
    using assms(1,2) by (simp add: select_scheme_cases)
  then show ?thesis
    using assms(3,4)
    by (simp add: calculate_refund_def sorted_reverse_standard py_int_pct)
qed

text \<open>
  Claim C1, as amended. For a delay of at least 15 minutes and a price above zero,
  \<^verbatim>\<open>calculate_refund\<close> works on the scheme of the operator: the flat scheme for
  \<^verbatim>\<open>'TfL'\<close>, the four-tier scheme for an operator of \<^verbatim>\<open>DR15_OPERATORS\<close>, the standard
  scheme for every other operator, a missing one included. It pays the percentage of the
  highest threshold of that scheme that the delay reaches: the amount is the float product
  of the price and the percentage, rounded to two decimal places by \<^verbatim>\<open>round\<close>, and the
  percentage is returned times 100 as an integer. For \<^verbatim>\<open>'TfL'\<close> and a price \<open>P\<close> the
  result is \<^verbatim>\<open>round(P, 2)\<close> with 100; it is \<open>P\<close> itself with 100 when \<open>P\<close> is the float of
  a price written with two decimal places, of up to \<open>2 ^ 50\<close> pence. For an operator of
  \<^verbatim>\<open>DR15_OPERATORS\<close> and a delay of 45 minutes it is half the price, rounded, with 50.
\<close>

theorem calculate_refund_scheme_tiers:
  assumes "15 \<le> d" and "0 < p"
  shows
    "(let scheme =
        (if operator = Some ''TfL'' then [(15, 1)]
         else if operator \<in> Some ` set DR15_OPERATORS
         then [(15, 1 / 4), (30, 1 / 2), (60, 1), (120, 1)]
         else [(15, 1 / 4), (30, 1 / 2), (60, 1)])
      in \<exists>t pct. (t, pct) \<in> set scheme \<and> t \<le> d \<and>
           (\<forall>t' q. (t', q) \<in> set scheme \<and> t' \<le> d \<longrightarrow> t' \<le> t) \<and>
           calculate_refund (Some d) (Some p) operator =
             (Some (py_round2 (py_mul p pct)), Some (py_int (py_mul pct 100)))) \<and>
     (operator = Some ''TfL'' \<longrightarrow>
        calculate_refund (Some d) (Some p) operator =
          (Some (py_round2 (py_mul p 1)), Some 100)) \<and>
     (operator = Some ''TfL'' \<and> py_mul p 1 = p \<longrightarrow>
        calculate_refund (Some d) (Some p) operator = (Some (py_round2 p), Some 100)) \<and>
     (operator = Some ''TfL'' \<and>
      (\<exists>pence :: int. pence < 2 ^ 50 \<and> p = py_float (of_int pence / 100)) \<longrightarrow>
        calculate_refund (Some d) (Some p) operator = (Some p, Some 100)) \<and>
     (operator \<in> Some ` set DR15_OPERATORS \<and> d = 45 \<longrightarrow>
        calculate_refund (Some d) (Some p) operator =
          (Some (py_round2 (py_mul p (1 / 2))), Some 50))"
proof -
  have nz: "d \<noteq> 0" "p \<noteq> 0"
    using assms by auto
  have tiers: "\<exists>t pct. (t, pct) \<in> set scheme \<and> t \<le> d \<and>
           (\<forall>t' q. (t', q) \<in> set scheme \<and> t' \<le> d \<longrightarrow> t' \<le> t) \<and>
           calculate_refund (Some d) (Some p) operator =
             (Some (py_round2 (py_mul p pct)), Some (py_int (py_mul pct 100)))"
    if "scheme =
        (if operator = Some ''TfL'' then [(15, 1)]
         else if operator \<in> Some ` set DR15_OPERATORS
         then [(15, 1 / 4), (30, 1 / 2), (60, 1), (120, 1)]
         else [(15, 1 / 4), (30, 1 / 2), (60, 1)])" for scheme
  proof -
    consider (tfl) "operator = Some ''TfL''"
      | (dr15) "operator \<noteq> Some ''TfL''" "operator \<in> Some ` set DR15_OPERATORS"
      | (std) "operator \<noteq> Some ''TfL''" "operator \<notin> Some ` set DR15_OPERATORS"
      by blast
    then show ?thesis
    proof cases
      case tfl
      note eq = calculate_refund_tfl [OF nz]
      show ?thesis
        using tfl that eq assms(1)
        by (intro exI [of _ "15 :: int"] exI [of _ "1 :: rat"]) (auto simp: py_int_pct)
    next
      case dr15
      note eq = calculate_refund_dr15 [OF dr15(2) nz]
      consider "120 \<le> d" | "60 \<le> d" "d < 120" | "30 \<le> d" "d < 60" | "d < 30"
        by linarith
      then show ?thesis
      proof cases
        case 1
        then show ?thesis
          using dr15 that eq
          by (intro exI [of _ "120 :: int"] exI [of _ "1 :: rat"]) (auto simp: py_int_pct)
      next
        case 2
        then show ?thesis
          using dr15 that eq
          by (intro exI [of _ "60 :: int"] exI [of _ "1 :: rat"]) (auto simp: py_int_pct)
      next
        case 3
        then show ?thesis
          using dr15 that eq
          by (intro exI [of _ "30 :: int"] exI [of _ "1 / 2 :: rat"]) (auto simp: py_int_pct)
      next
        case 4
        then show ?thesis
          using dr15 that eq assms(1)
          by (intro exI [of _ "15 :: int"] exI [of _ "1 / 4 :: rat"]) (auto simp: py_int_pct)
      qed
    next
      case std
      note eq = calculate_refund_standard [OF std nz]
      consider "60 \<le> d" | "30 \<le> d" "d < 60" | "d < 30"
        by linarith
      then show ?thesis
      proof cases
        case 1
        then show ?thesis
          using std that eq
          by (intro exI [of _ "60 :: int"] exI [of _ "1 :: rat"]) (auto simp: py_int_pct)
      next
        case 2
        then show ?thesis
          using std that eq
          by (intro exI [of _ "30 :: int"] exI [of _ "1 / 2 :: rat"]) (auto simp: py_int_pct)
      next
        case 3
        then show ?thesis
          using std that eq assms(1)
          by (intro exI [of _ "15 :: int"] exI [of _ "1 / 4 :: rat"]) (auto simp: py_int_pct)
      qed
    qed
  qed
  have a: "operator = Some ''TfL'' \<longrightarrow>
        calculate_refund (Some d) (Some p) operator =
          (Some (py_round2 (py_mul p 1)), Some 100)"
    using calculate_refund_tfl [OF nz] assms(1) by simp
  have b: "operator = Some ''TfL'' \<and> py_mul p 1 = p \<longrightarrow>
        calculate_refund (Some d) (Some p) operator = (Some (py_round2 p), Some 100)"
    using a by auto
  have c: "operator = Some ''TfL'' \<and>
      (\<exists>pence :: int. pence < 2 ^ 50 \<and> p = py_float (of_int pence / 100)) \<longrightarrow>
        calculate_refund (Some d) (Some p) operator = (Some p, Some 100)"
  proof (intro impI, elim conjE exE)
    fix pence :: int
    assume op: "operator = Some ''TfL''" and lt: "pence < 2 ^ 50"
      and p: "p = py_float (of_int pence / 100)"
    have "0 \<le> pence"
    proof (rule ccontr)
      assume "\<not> 0 \<le> pence"
      then have neg: "(of_int pence / 100 :: rat) < 0"
        by simp
      then have "round_half_even (of_int pence / 100 / ulp) \<le> 0" if "0 < ulp" for ulp :: rat
      proof -
        have "of_int pence / 100 / ulp < 0"
          using neg that by (simp add: divide_neg_pos)
        then have "(of_int (round_half_even (of_int pence / 100 / ulp)) :: rat) < 1"
          using round_half_even_near [of "of_int pence / 100 / ulp"] by linarith
        then show ?thesis
          by simp
      qed
      then have "nearest_double (of_int pence / 100) \<le> 0"
        using neg
        by (auto simp: nearest_double_def Let_def mult_le_0_iff)
      then show False
        using assms(2) p by (simp add: py_float_def)
    qed
    then have "py_round2 (py_mul p 1) = p"
      unfolding p using lt by (rule py_round2_two_decimals)
    then show "calculate_refund (Some d) (Some p) operator = (Some p, Some 100)"
      using a op by simp
  qed
  have e: "operator \<in> Some ` set DR15_OPERATORS \<and> d = 45 \<longrightarrow>
        calculate_refund (Some d) (Some p) operator =
          (Some (py_round2 (py_mul p (1 / 2))), Some 50)"
  proof (intro impI, elim conjE)
    assume op: "operator \<in> Some ` set DR15_OPERATORS" and d: "d = 45"
    show "calculate_refund (Some d) (Some p) operator =
        (Some (py_round2 (py_mul p (1 / 2))), Some 50)"
      using calculate_refund_dr15 [OF op nz] d by simp
  qed
  show ?thesis
    using tiers a b c e unfolding Let_def by blast
qed

text \<open>The theorem at a delay of 45 minutes and a price of 45, for LNER and for TfL; at a
  ticket of 19.99 delayed by 30 minutes with LNER, where half the price is rounded down to
  9.99; and at the price 12.345 with TfL, which is rounded to 12.35.\<close>

theorem calculate_refund_scheme_tiers_witness:
  "(15 :: int) \<le> 45 \<and> (0 :: rat) < 45 \<and>
   calculate_refund (Some 45) (Some 45) (Some ''LNER'') = (Some (45 / 2), Some 50) \<and>
   calculate_refund (Some 45) (Some 45) (Some ''TfL'') = (Some 45, Some 100) \<and>
   calculate_refund (Some 30) (Some (py_float (1999 / 100))) (Some ''LNER'') =
     (Some (py_float (999 / 100)), Some 50) \<and>
   calculate_refund (Some 20) (Some (py_float (12345 / 1000))) (Some ''TfL'') =
     (Some (py_float (1235 / 100)), Some 100)"
proof -
  have le: "(15 :: int) \<le> 45" and lt: "(0 :: rat) < 45"
    by simp_all
  have dr: "Some ''LNER'' \<in> Some ` set DR15_OPERATORS"
    by (simp add: DR15_OPERATORS_def)
  have r: "py_round2 (py_mul 45 (1 / 2)) = 45 / 2"
    by code_simp
  have p: "\<exists>pence :: int. pence < 2 ^ 50 \<and> (45 :: rat) = py_float (of_int pence / 100)"
  proof (intro exI [of _ 4500] conjI)
    show "(45 :: rat) = py_float (of_int 4500 / 100)"
      by code_simp
  qed simp
  have 1: "calculate_refund (Some 45) (Some 45) (Some ''LNER'') = (Some (45 / 2), Some 50)"
    using calculate_refund_scheme_tiers [OF le lt, of "Some ''LNER''"] dr r by metis
  have 2: "calculate_refund (Some 45) (Some 45) (Some ''TfL'') = (Some 45, Some 100)"
    using calculate_refund_scheme_tiers [OF le lt, of "Some ''TfL''"] p by blast
  have 3: "calculate_refund (Some 30) (Some (py_float (1999 / 100))) (Some ''LNER'') =
     (Some (py_float (999 / 100)), Some 50)"
    by code_simp
  have 4: "calculate_refund (Some 20) (Some (py_float (12345 / 1000))) (Some ''TfL'') =
     (Some (py_float (1235 / 100)), Some 100)"
    by code_simp
  show ?thesis
    using le lt 1 2 3 4 by blast
qed

text \<open>
  Claim C1 as the specification states it gives \<open>(P, 100)\<close> for \<^verbatim>\<open>'TfL'\<close> at every price
  \<open>P\<close>. At a delay of 20 minutes and the price 12.344 the function returns 12.34.
\<close>

theorem calculate_refund_tfl_counterexample:
  "(15 :: int) \<le> 20 \<and> (0 :: rat) < py_float (12344 / 1000) \<and>
   calculate_refund (Some 20) (Some (py_float (12344 / 1000))) (Some ''TfL'') =
     (Some (py_float (1234 / 100)), Some 100) \<and>
   calculate_refund (Some 20) (Some (py_float (12344 / 1000))) (Some ''TfL'') \<noteq>
     (Some (py_float (12344 / 1000)), Some 100)"
  by code_simp

text \<open>
  Claim C2. \<^verbatim>\<open>calculate_refund\<close> returns \<open>(None, None)\<close> when the delay is missing or
  zero, or the price is missing or zero; and also for every delay below 15 minutes,
  whatever the operator and the price, as 15 minutes is the lowest threshold of every
  scheme.
\<close>

theorem calculate_refund_none:
  "(delay_mins = None \<or> delay_mins = Some 0 \<or> price = None \<or> price = Some 0 \<longrightarrow>
      calculate_refund delay_mins price operator = (None, None)) \<and>
   (d < 15 \<longrightarrow> calculate_refund (Some d) price operator = (None, None))"
proof -
  have "calculate_refund (Some d) (Some p) operator = (None, None)" if "d < 15" for p
  proof (cases "d = 0 \<or> p = 0")
    case True
    then show ?thesis by (auto simp: calculate_refund_def)
  next
    case False
    then have nz: "d \<noteq> 0" "p \<noteq> 0" by auto
    consider (tfl) "operator = Some ''TfL''"
      | (dr15) "operator \<in> Some ` set DR15_OPERATORS"
      | (std) "operator \<noteq> Some ''TfL''" "operator \<notin> Some ` set DR15_OPERATORS"
      by blast
    then show ?thesis
    proof cases
      case tfl
      then show ?thesis using calculate_refund_tfl [OF nz] that by simp
    next
      case dr15
      then show ?thesis using calculate_refund_dr15 [OF dr15 nz] that by simp
    next
      case std
      then show ?thesis using calculate_refund_standard [OF std nz] that by simp
    qed
  qed
  then have "d < 15 \<longrightarrow> calculate_refund (Some d) price operator = (None, None)"
    by (cases price) (auto simp: calculate_refund_def)
  moreover have "delay_mins = None \<or> delay_mins = Some 0 \<or> price = None \<or> price = Some 0 \<longrightarrow>
      calculate_refund delay_mins price operator = (None, None)"
    by (auto simp: calculate_refund_def split: option.splits)
  ultimately show ?thesis by blast
qed

text \<open>The theorem at a missing delay, a zero delay, a missing price, a zero price and a
  delay of 14 minutes.\<close>

theorem calculate_refund_none_witness:
  "calculate_refund None (Some 20) (Some ''LNER'') = (None, None) \<and>
   calculate_refund (Some 0) (Some 20) (Some ''LNER'') = (None, None) \<and>
   calculate_refund (Some 30) None (Some ''LNER'') = (None, None) \<and>
   calculate_refund (Some 30) (Some 0) (Some ''LNER'') = (None, None) \<and>
   (14 :: int) < 15 \<and> calculate_refund (Some 14) (Some 20) (Some ''TfL'') = (None, None)"
  using calculate_refund_none [of None "Some 20" "Some ''LNER''" 14]
    calculate_refund_none [of "Some 0" "Some 20" "Some ''LNER''" 14]
    calculate_refund_none [of "Some 30" None "Some ''LNER''" 14]
    calculate_refund_none [of "Some 30" "Some 0" "Some ''LNER''" 14]
    calculate_refund_none [of None "Some 20" "Some ''TfL''" 14]
  by simp

subsection \<open>The opportunity aggregator\<close>

lemma upper_Nil_iff: "upper s = [] \<longleftrightarrow> s = []"
  by (simp add: upper_def)

lemma already_claimed_iff_spec:
  "already_claimed (refunded_refs (refunds_of emails)) d \<longleftrightarrow> spec_claimed emails d"
proof (cases "e_booking_ref d")
  case None
  then show ?thesis
    by (simp add: already_claimed_def spec_claimed_def str_or_empty_def upper_def)
next
  case (Some x)
  have "upper x \<in> refunded_refs (refunds_of emails) \<longleftrightarrow>
        (\<exists>r \<in> set emails. e_category r = ''refund'' \<and>
           (case e_booking_ref r of None \<Rightarrow> False | Some y \<Rightarrow> upper y = upper x))"
    if "upper x \<noteq> []"
  proof
    assume "upper x \<in> refunded_refs (refunds_of emails)"
    then obtain r where r: "r \<in> set emails" "e_category r = ''refund''"
        "truthy_str (e_booking_ref r)" "upper (str_or_empty (e_booking_ref r)) = upper x"
      by (auto simp: refunded_refs_def refunds_of_def)
    then show "\<exists>r \<in> set emails. e_category r = ''refund'' \<and>
           (case e_booking_ref r of None \<Rightarrow> False | Some y \<Rightarrow> upper y = upper x)"
      by (cases "e_booking_ref r") (auto simp: truthy_str_def str_or_empty_def)
  next
    assume "\<exists>r \<in> set emails. e_category r = ''refund'' \<and>
           (case e_booking_ref r of None \<Rightarrow> False | Some y \<Rightarrow> upper y = upper x)"
    then obtain r y where r: "r \<in> set emails" "e_category r = ''refund''"
        "e_booking_ref r = Some y" "upper y = upper x"
      by (auto split: option.splits)
    then have "y \<noteq> []"
      using that upper_Nil_iff by metis
    then have "truthy_str (e_booking_ref r)" "upper (str_or_empty (e_booking_ref r)) = upper x"
      using r by (simp_all add: truthy_str_def str_or_empty_def)
    moreover have "r \<in> set (refunds_of emails)"
      using r by (simp add: refunds_of_def)
    ultimately show "upper x \<in> refunded_refs (refunds_of emails)"
      by (force simp: refunded_refs_def)
  qed
  then show ?thesis
    using Some
    by (auto simp: already_claimed_def spec_claimed_def str_or_empty_def list_ex_iff Let_def)
qed

lemma unsorted_opportunities_spec:
  "unsorted_opportunities lib clock emails =
     map (build_opportunity lib clock) (filter (\<lambda>d. \<not> spec_claimed emails d) (delays_of emails))"
  by (simp add: unsorted_opportunities_def already_claimed_iff_spec)

lemma set_scan_opportunities:
  "set (scan_opportunities lib clock emails) =
     build_opportunity lib clock ` {d \<in> set (delays_of emails). \<not> spec_claimed emails d}"
  by (simp add: scan_opportunities_def sort_opportunities_def unsorted_opportunities_spec)

lemma build_opportunity_fields:
  "o_booking_ref (build_opportunity lib clock d) = e_booking_ref d"
  "o_price (build_opportunity lib clock d) = e_price d"
  "o_delay_mins (build_opportunity lib clock d) = e_delay_mins d"
  by (simp_all add: build_opportunity_def Let_def)


lemma set_delays_of:
  "set (delays_of emails) =
     {e \<in> set emails. e_category e \<in> {''delay'', ''delay_claim'', ''cancellation''}}"
  by (auto simp: delays_of_def)

text \<open>
  Claim C3. The delay candidates are the records of category \<^verbatim>\<open>delay\<close>, \<^verbatim>\<open>delay_claim\<close>
  or \<^verbatim>\<open>cancellation\<close>. The opportunities of a scan are built from exactly those
  candidates that are not claimed: a candidate whose booking reference, upper-cased, is
  not empty and equals the upper-cased booking reference of a \<^verbatim>\<open>refund\<close> record of the
  same scan gives no opportunity. So no opportunity of the result carries a non-empty
  booking reference that agrees, up to case, with that of a refund record.
\<close>

theorem claimed_delay_gives_no_opportunity:
  "set (delays_of emails) =
     {e \<in> set emails. e_category e \<in> {''delay'', ''delay_claim'', ''cancellation''}} \<and>
   scan_opportunities lib clock emails =
     sort_opportunities
       (map (build_opportunity lib clock)
          (filter (\<lambda>d. \<not> spec_claimed emails d) (delays_of emails))) \<and>
   (\<forall>opp \<in> set (scan_opportunities lib clock emails). \<forall>r \<in> set emails. \<forall>x y.
      o_booking_ref opp = Some x \<and> upper x \<noteq> [] \<and>
      e_category r = ''refund'' \<and> e_booking_ref r = Some y \<longrightarrow> upper x \<noteq> upper y)"
proof -
  have main: "upper x \<noteq> upper y"
    if h: "opp \<in> set (scan_opportunities lib clock emails)" "r \<in> set emails"
      "o_booking_ref opp = Some x" "upper x \<noteq> []" "e_category r = ''refund''"
      "e_booking_ref r = Some y" for opp r x y
  proof
    assume eq: "upper x = upper y"
    obtain d where d: "d \<in> set (delays_of emails)" "\<not> spec_claimed emails d"
        "opp = build_opportunity lib clock d"
      using h(1) unfolding set_scan_opportunities by blast
    have "e_booking_ref d = Some x"
      using d(3) h(3) by (simp add: build_opportunity_fields)
    then have "spec_claimed emails d"
      using h(2,4,5,6) eq by (auto simp: spec_claimed_def list_ex_iff)
    then show False
      using d(2) by simp
  qed
  have c: "\<forall>opp \<in> set (scan_opportunities lib clock emails). \<forall>r \<in> set emails. \<forall>x y.
      o_booking_ref opp = Some x \<and> upper x \<noteq> [] \<and>
      e_category r = ''refund'' \<and> e_booking_ref r = Some y \<longrightarrow> upper x \<noteq> upper y"
    using main by blast
  have b: "scan_opportunities lib clock emails =
     sort_opportunities
       (map (build_opportunity lib clock)
          (filter (\<lambda>d. \<not> spec_claimed emails d) (delays_of emails)))"
    by (simp add: scan_opportunities_def unsorted_opportunities_spec)
  show ?thesis
    by (intro conjI) (rule set_delays_of, rule b, rule c)
qed

text \<open>The specification's example: a delay with the reference \<^verbatim>\<open>ABC1234\<close> and a refund with
  \<^verbatim>\<open>abc1234\<close> leave no opportunity; a second delay with another reference stays.\<close>

theorem claimed_delay_gives_no_opportunity_witness:
  "scan_opportunities sample_stdlib (738000, 0)
     [example_email ''delay'' (Some ''ABC1234'') (Some 45) (Some 45),
      example_email ''refund'' (Some ''abc1234'') None None] = [] \<and>
   map o_booking_ref
     (scan_opportunities sample_stdlib (738000, 0)
        [example_email ''cancellation'' (Some ''ABC1234'') (Some 45) (Some 45),
         example_email ''delay'' (Some ''XY123456'') (Some 45) (Some 45),
         example_email ''refund'' (Some ''abc1234'') None None]) = [Some ''XY123456'']"
proof -
  let ?d1 = "example_email ''delay'' (Some ''ABC1234'') (Some 45) (Some 45)"
  let ?c1 = "example_email ''cancellation'' (Some ''ABC1234'') (Some 45) (Some 45)"
  let ?d2 = "example_email ''delay'' (Some ''XY123456'') (Some 45) (Some 45)"
  let ?r1 = "example_email ''refund'' (Some ''abc1234'') None None"
  have a: "sort_opportunities
       (map (build_opportunity sample_stdlib (738000, 0))
          (filter (\<lambda>d. \<not> spec_claimed [?d1, ?r1] d) (delays_of [?d1, ?r1]))) = []"
    by code_simp
  have b: "map o_booking_ref (sort_opportunities
       (map (build_opportunity sample_stdlib (738000, 0))
          (filter (\<lambda>d. \<not> spec_claimed [?c1, ?d2, ?r1] d) (delays_of [?c1, ?d2, ?r1])))) =
       [Some ''XY123456'']"
    by code_simp
  show ?thesis
    using claimed_delay_gives_no_opportunity [of "[?d1, ?r1]" sample_stdlib "(738000, 0)"]
      claimed_delay_gives_no_opportunity [of "[?c1, ?d2, ?r1]" sample_stdlib "(738000, 0)"]
      a b
    by simp
qed

lemma sort_key_of_le_iff: "sort_key_of x \<le> sort_key_of y \<longleftrightarrow> spec_before x y"
  by (auto simp: sort_key_of_def spec_before_def spec_amount_def spec_confidence_rank_def
      spec_status_rank_def split: option.splits)

lemma sort_key_of_eq_iff: "sort_key_of y = sort_key_of x \<longleftrightarrow> spec_tied x y"
  by (auto simp: sort_key_of_def spec_tied_def spec_amount_def spec_confidence_rank_def
      spec_status_rank_def split: option.splits)

text \<open>
  Claim C4. The final list is in the order of the specification: by refund amount
  descending with a missing amount counted as 0, then by confidence in the order high,
  medium, low, then with the status \<^verbatim>\<open>active\<close> before every other status. It holds the same
  opportunities as the list before the sort, and the opportunities that are tied with a
  given one on all three parts of the key stand in their original relative order.
\<close>

theorem opportunities_sorted_stable:
  "scan_opportunities lib clock emails =
     sort_opportunities (unsorted_opportunities lib clock emails) \<and>
   sorted_wrt spec_before (sort_opportunities opportunities) \<and>
   mset (sort_opportunities opportunities) = mset opportunities \<and>
   (\<forall>x. filter (spec_tied x) (sort_opportunities opportunities) =
        filter (spec_tied x) opportunities)"
proof -
  have "sorted (map sort_key_of (sort_opportunities opportunities))"
    by (simp add: sort_opportunities_def)
  then have a: "sorted_wrt spec_before (sort_opportunities opportunities)"
    by (simp add: sorted_map sort_key_of_le_iff)
  have b: "mset (sort_opportunities opportunities) = mset opportunities"
    by (simp add: sort_opportunities_def)
  have c: "filter (spec_tied x) (sort_opportunities opportunities) =
        filter (spec_tied x) opportunities" for x
    using sort_key_stable [of sort_key_of "sort_key_of x" opportunities]
    by (simp add: sort_opportunities_def sort_key_of_eq_iff)
  show ?thesis
    using a b c by (simp add: scan_opportunities_def)
qed

text \<open>The specification's example: the amounts 50, none, 100 with the confidences medium,
  high, low come out as 100, 50, none; and two opportunities tied on the key keep their
  order.\<close>

theorem opportunities_sorted_stable_witness:
  "sorted_wrt spec_before
     (sort_opportunities
        [example_opportunity (Some 50) ''medium'' ''active'',
         example_opportunity None ''high'' ''active'',
         example_opportunity (Some 100) ''low'' ''expired'']) \<and>
   sort_opportunities
     [example_opportunity (Some 50) ''medium'' ''active'',
      example_opportunity None ''high'' ''active'',
      example_opportunity (Some 100) ''low'' ''expired''] =
     [example_opportunity (Some 100) ''low'' ''expired'',
      example_opportunity (Some 50) ''medium'' ''active'',
      example_opportunity None ''high'' ''active'']"
proof -
  let ?xs = "[example_opportunity (Some 50) ''medium'' ''active'',
         example_opportunity None ''high'' ''active'',
         example_opportunity (Some 100) ''low'' ''expired'']"
  have "sort_opportunities ?xs =
     [example_opportunity (Some 100) ''low'' ''expired'',
      example_opportunity (Some 50) ''medium'' ''active'',
      example_opportunity None ''high'' ''active'']"
    by code_simp
  then show ?thesis
    using opportunities_sorted_stable [of sample_stdlib "(738000, 0)" "[]" ?xs] by simp
qed

lemma calculate_refund_shape:
  "calculate_refund delay_mins price operator = (None, None) \<or>
   (\<exists>p pct. price = Some p \<and> pct \<in> {25, 50, 100} \<and>
      calculate_refund delay_mins price operator =
        (Some (py_round2 (py_mul p (of_int pct / 100))), Some pct))"
proof (cases delay_mins)
  case None
  then show ?thesis by (simp add: calculate_refund_def)
next
  case d: (Some d)
  show ?thesis
  proof (cases price)
    case None
    then show ?thesis using d by (simp add: calculate_refund_def)
  next
    case p: (Some p)
    show ?thesis
    proof (cases "d = 0 \<or> p = 0")
      case True
      then show ?thesis using d p by (auto simp: calculate_refund_def)
    next
      case False
      then have nz: "d \<noteq> 0" "p \<noteq> 0" by auto
      have "calculate_refund (Some d) (Some p) operator =
         (if operator = Some ''TfL'' \<and> 15 \<le> d \<or> 60 \<le> d
          then (Some (py_round2 (py_mul p 1)), Some 100)
          else if operator = Some ''TfL'' then (None, None)
          else if 30 \<le> d then (Some (py_round2 (py_mul p (1 / 2))), Some 50)
          else if 15 \<le> d then (Some (py_round2 (py_mul p (1 / 4))), Some 25)
          else (None, None))"
      proof -
        consider (tfl) "operator = Some ''TfL''"
          | (dr15) "operator \<noteq> Some ''TfL''" "operator \<in> Some ` set DR15_OPERATORS"
          | (std) "operator \<noteq> Some ''TfL''" "operator \<notin> Some ` set DR15_OPERATORS"
          by blast
        then show ?thesis
        proof cases
          case tfl
          then show ?thesis using calculate_refund_tfl [OF nz] by auto
        next
          case dr15
          then show ?thesis using calculate_refund_dr15 [OF dr15(2) nz] by auto
        next
          case std
          then show ?thesis using calculate_refund_standard [OF std nz] by auto
        qed
      qed
      then show ?thesis
        using d p by auto
    qed
  qed
qed

text \<open>
  Claim C10. In every opportunity of a scan the refund amount and the refund percentage
  are both there or both missing; and when they are there, the percentage is 25, 50 or
  100 and the amount is the float product of the price and the percentage over 100,
  rounded to two decimal places by \<^verbatim>\<open>round\<close>.
\<close>

theorem refund_amount_pct_paired:
  "\<forall>opp \<in> set (scan_opportunities lib clock emails).
     (o_refund_amount opp = None \<longleftrightarrow> o_refund_pct opp = None) \<and>
     (\<forall>a pct. o_refund_amount opp = Some a \<and> o_refund_pct opp = Some pct \<longrightarrow>
        pct \<in> {25, 50, 100} \<and>
        (\<exists>p. o_price opp = Some p \<and> a = py_round2 (py_mul p (of_int pct / 100))))"
proof
  fix opp
  assume "opp \<in> set (scan_opportunities lib clock emails)"
  then obtain d where opp: "opp = build_opportunity lib clock d"
    unfolding set_scan_opportunities by blast
  define operator where "operator = (case e_operator d of None \<Rightarrow> ''Unknown'' | Some name \<Rightarrow> name)"
  have fields: "o_refund_amount opp = fst (calculate_refund (e_delay_mins d) (e_price d) (Some operator))"
    "o_refund_pct opp = snd (calculate_refund (e_delay_mins d) (e_price d) (Some operator))"
    "o_price opp = e_price d"
    by (simp_all add: opp build_opportunity_def Let_def operator_def)
  show "(o_refund_amount opp = None \<longleftrightarrow> o_refund_pct opp = None) \<and>
     (\<forall>a pct. o_refund_amount opp = Some a \<and> o_refund_pct opp = Some pct \<longrightarrow>
        pct \<in> {25, 50, 100} \<and>
        (\<exists>p. o_price opp = Some p \<and> a = py_round2 (py_mul p (of_int pct / 100))))"
    using calculate_refund_shape [of "e_delay_mins d" "e_price d" "Some operator"]
    unfolding fields by auto
qed

text \<open>A delay of 30 minutes on a ticket of 19.99 with LNER: the opportunity carries the
  amount 9.99, which is half the price, 9.995 less a rounding error of the float, rounded
  to two decimal places, and the percentage 50.\<close>

theorem refund_amount_pct_paired_witness:
  "\<exists>opp \<in> set (scan_opportunities sample_stdlib (738000, 0)
       [example_email ''delay'' (Some ''LN123456'') (Some 30) (Some (py_float (1999 / 100)))]).
     o_refund_amount opp = Some (py_float (999 / 100)) \<and> o_refund_pct opp = Some 50 \<and>
     o_price opp = Some (py_float (1999 / 100)) \<and>
     py_float (999 / 100) = py_round2 (py_mul (py_float (1999 / 100)) (of_int 50 / 100))"
proof -
  let ?emails =
    "[example_email ''delay'' (Some ''LN123456'') (Some 30) (Some (py_float (1999 / 100)))]"
  let ?opp = "build_opportunity sample_stdlib (738000, 0)
       (example_email ''delay'' (Some ''LN123456'') (Some 30) (Some (py_float (1999 / 100))))"
  have m: "scan_opportunities sample_stdlib (738000, 0) ?emails = [?opp]"
    by code_simp
  have v: "o_refund_amount ?opp = Some (py_float (999 / 100))" "o_refund_pct ?opp = Some 50"
    "o_price ?opp = Some (py_float (1999 / 100))"
    by code_simp+
  have "?opp \<in> set (scan_opportunities sample_stdlib (738000, 0) ?emails)"
    by (simp add: m)
  then have "\<exists>p. o_price ?opp = Some p \<and>
      py_float (999 / 100) = py_round2 (py_mul p (of_int 50 / 100))"
    using refund_amount_pct_paired [of sample_stdlib "(738000, 0)" ?emails] v by blast
  then have "py_float (999 / 100) = py_round2 (py_mul (py_float (1999 / 100)) (of_int 50 / 100))"
    unfolding v(3) by blast
  then show ?thesis
    using v unfolding m by (intro bexI [of _ ?opp]) (simp_all del: of_int_numeral)
qed

text \<open>
  Claim C9, as amended. In every opportunity of a scan the confidence is \<^verbatim>\<open>high\<close> exactly
  when the booking reference, the delay and the price all count as true in Python, that
  is, are there and are not the empty string, not 0 and not 0.0; it is \<^verbatim>\<open>medium\<close>
  exactly when the booking reference and the delay count as true and the price does not;
  and it is \<^verbatim>\<open>low\<close> in every other case.
\<close>

theorem confidence_by_truthiness:
  "\<forall>opp \<in> set (scan_opportunities lib clock emails).
     (o_confidence opp = ''high'' \<longleftrightarrow>
        truthy_str (o_booking_ref opp) \<and> truthy_int (o_delay_mins opp) \<and>
        truthy_float (o_price opp)) \<and>
     (o_confidence opp = ''medium'' \<longleftrightarrow>
        truthy_str (o_booking_ref opp) \<and> truthy_int (o_delay_mins opp) \<and>
        \<not> truthy_float (o_price opp)) \<and>
     (o_confidence opp = ''low'' \<longleftrightarrow>
        \<not> (truthy_str (o_booking_ref opp) \<and> truthy_int (o_delay_mins opp)))"
proof
  fix opp
  assume "opp \<in> set (scan_opportunities lib clock emails)"
  then obtain d where opp: "opp = build_opportunity lib clock d"
    unfolding set_scan_opportunities by blast
  show "(o_confidence opp = ''high'' \<longleftrightarrow>
        truthy_str (o_booking_ref opp) \<and> truthy_int (o_delay_mins opp) \<and>
        truthy_float (o_price opp)) \<and>
     (o_confidence opp = ''medium'' \<longleftrightarrow>
        truthy_str (o_booking_ref opp) \<and> truthy_int (o_delay_mins opp) \<and>
        \<not> truthy_float (o_price opp)) \<and>
     (o_confidence opp = ''low'' \<longleftrightarrow>
        \<not> (truthy_str (o_booking_ref opp) \<and> truthy_int (o_delay_mins opp)))"
    by (auto simp: opp build_opportunity_def Let_def)
qed

text \<open>The theorem on three delays with a booking reference: with delay and price, with a
  delay and no price, and with no delay.\<close>

theorem confidence_by_truthiness_witness:
  "map o_confidence
     (scan_opportunities sample_stdlib (738000, 0)
        [example_email ''delay'' (Some ''LN123456'') (Some 45) (Some 45),
         example_email ''delay'' (Some ''LN123457'') (Some 45) None,
         example_email ''delay'' (Some ''LN123458'') None (Some 45)]) =
     [''high'', ''medium'', ''low''] \<and>
   (\<exists>opp \<in> set (scan_opportunities sample_stdlib (738000, 0)
        [example_email ''delay'' (Some ''LN123456'') (Some 45) (Some 45),
         example_email ''delay'' (Some ''LN123457'') (Some 45) None,
         example_email ''delay'' (Some ''LN123458'') None (Some 45)]).
      o_confidence opp = ''high'' \<and> truthy_str (o_booking_ref opp) \<and>
      truthy_int (o_delay_mins opp) \<and> truthy_float (o_price opp))"
proof -
  let ?emails = "[example_email ''delay'' (Some ''LN123456'') (Some 45) (Some 45),
         example_email ''delay'' (Some ''LN123457'') (Some 45) None,
         example_email ''delay'' (Some ''LN123458'') None (Some 45)]"
  let ?opp = "build_opportunity sample_stdlib (738000, 0)
       (example_email ''delay'' (Some ''LN123456'') (Some 45) (Some 45))"
  have c: "map o_confidence (scan_opportunities sample_stdlib (738000, 0) ?emails) =
      [''high'', ''medium'', ''low'']"
    by code_simp
  have m: "?opp \<in> set (scan_opportunities sample_stdlib (738000, 0) ?emails)"
    by code_simp
  have h: "o_confidence ?opp = ''high''"
    by code_simp
  have "truthy_str (o_booking_ref ?opp) \<and> truthy_int (o_delay_mins ?opp) \<and>
      truthy_float (o_price ?opp)"
    using confidence_by_truthiness [of sample_stdlib "(738000, 0)" ?emails] m h by blast
  then show ?thesis
    using c m h by blast
qed

text \<open>
  Claim C9 as the specification states it counts a delay of zero minutes and a price of
  zero as present. A delay record with a booking reference, the extracted delay 0 and a
  price would then be \<^verbatim>\<open>high\<close>, and one with a booking reference, a delay and the
  extracted price 0 would be \<^verbatim>\<open>high\<close> as well; the code gives \<^verbatim>\<open>low\<close> and \<^verbatim>\<open>medium\<close>.
\<close>

theorem confidence_zero_counterexample:
  "map (\<lambda>opp. (o_booking_ref opp, o_delay_mins opp, o_price opp, o_confidence opp))
     (scan_opportunities sample_stdlib (738000, 0)
        [example_email ''delay'' (Some ''LN123456'') (Some 0) (Some 45),
         example_email ''delay'' (Some ''LN123457'') (Some 45) (Some 0)]) =
     [(Some ''LN123457'', Some 45, Some 0, ''medium''),
      (Some ''LN123456'', Some 0, Some 45, ''low'')]"
  by code_simp

subsection \<open>The deadline calculator\<close>



text \<open>The first format that parses wins.\<close>

lemma try_formats_first:
  "try_formats lib s (skipped @ fmt # fmts) = Some jdate"
  if "\<forall>f \<in> set skipped. strptime lib s f = None" "strptime lib s fmt = Some jdate"
  using that by (induction skipped) auto


text \<open>A parsed date with a time zone never gets a deadline: the comparison with the naive
  clock raises \<^verbatim>\<open>TypeError\<close>, and the handler turns it into \<^verbatim>\<open>unknown\<close>. This is the
  fate of every timestamp with a trailing \<^verbatim>\<open>Z\<close>, which the function rewrites to
  \<^verbatim>\<open>+00:00\<close> before parsing.\<close>

lemma get_claim_deadline_aware:
  assumes "parse_journey_date lib s = Inr (Some jdate)" "dt_utcoffset jdate = Some off"
  shows "get_claim_deadline lib clock operator (Some s) = (None, ''unknown'')"
  using assms
  by (auto simp: get_claim_deadline_def deadline_try_block_def add_days_def datetime_gt_def
      datetime_now_def Let_def split: sum.splits option.splits)

lemma get_claim_deadline_aware_example:
  "get_claim_deadline sample_stdlib (738000, 0) (Some ''LNER'') (Some ''2020-01-01T00:00:00Z'') =
     (None, ''unknown'')"
  by code_simp




subsection \<open>The classifier\<close>

text \<open>
  Claim C7, as amended. For every subject, body and sender the classifier lower-cases
  the subject, a single space and the body, joined in this order, tests the seven keyword
  sets in the order \<^verbatim>\<open>delay_claim\<close>, refund, cancellation, delay, booking,
  statement, receipt, returns the category of the first set with a keyword in the text, and
  \<^verbatim>\<open>other\<close> when no set has one: every input gets one of the eight categories.
\<close>

theorem categorise_email_priority:
  "categorise_email subject body sender =
     first_category keyword_sets (lower (subject @ '' '' @ body)) \<and>
   categorise_email subject body sender \<in>
     set [''delay_claim'', ''refund'', ''cancellation'', ''delay'', ''booking'', ''statement'',
          ''receipt'', ''other'']"
proof -
  have "categorise_email subject body sender =
     first_category keyword_sets (lower (subject @ '' '' @ body))"
    by (simp add: categorise_email_def keyword_sets_def any_kw_in_def py_in_def Let_def)
  moreover have "first_category keyword_sets t \<in>
     set [''delay_claim'', ''refund'', ''cancellation'', ''delay'', ''booking'', ''statement'',
          ''receipt'', ''other'']" for t
    by (simp add: keyword_sets_def)
  ultimately show ?thesis
    by simp
qed

text \<open>An email that speaks of a cancellation and of a refund is a refund; one with no
  keyword is \<^verbatim>\<open>other\<close>.\<close>

theorem categorise_email_priority_witness:
  "categorise_email ''Your train was cancelled'' ''We will refund your ticket''
     ''LNER <noreply@lner.co.uk>'' = ''refund'' \<and>
   categorise_email ''Hello'' ''See you soon'' ''someone@example.com'' = ''other''"
proof -
  have a: "first_category keyword_sets
      (lower (''Your train was cancelled'' @ '' '' @ ''We will refund your ticket'')) = ''refund''"
    by code_simp
  have b: "first_category keyword_sets (lower (''Hello'' @ '' '' @ ''See you soon'')) = ''other''"
    by code_simp
  show ?thesis
    using categorise_email_priority
        [of "''Your train was cancelled''" "''We will refund your ticket''"
          "''LNER <noreply@lner.co.uk>''"]
      categorise_email_priority [of "''Hello''" "''See you soon''" "''someone@example.com''"]
      a b
    by simp
qed

text \<open>
  Claim C7 as the specification states it classifies the concatenation of subject and
  body. For the subject \<^verbatim>\<open>Delay\<close> and the body \<^verbatim>\<open>repay\<close> the concatenation is
  \<^verbatim>\<open>Delayrepay\<close>, a delay; the code puts a space between the two and finds the keyword
  \<^verbatim>\<open>delay repay\<close>, a delay claim.
\<close>

theorem categorise_email_separator_counterexample:
  "categorise_email ''Delay'' ''repay'' [] = ''delay_claim'' \<and>
   first_category keyword_sets (lower (''Delay'' @ ''repay'')) = ''delay''"
  by code_simp

subsection \<open>The delay duration\<close>

lemma takeWhile_digits_append:
  assumes "\<forall>c \<in> set ds. in_class Digits c" "\<not> in_class Digits x"
  shows "takeWhile (in_class Digits) (ds @ x # rest) = ds"
  using assms by (induction ds) auto

lemma sublist_Cons_append_notin:
  assumes "x \<notin> set ys"
  shows "sublist (x # xs) (ys @ zs) \<longleftrightarrow> sublist (x # xs) zs"
  using assms
proof (induction ys)
  case Nil
  then show ?case by simp
next
  case (Cons y ys)
  then show ?case by (simp add: sublist_Cons_right)
qed

lemma lower_digits:
  assumes "\<forall>c \<in> set ds. in_class Digits c"
  shows "lower ds = ds"
  using assms by (induction ds) (auto simp: lower_def lower_char_def Let_def)

lemma h_not_digit: "\<forall>c \<in> set ds. in_class Digits c \<Longrightarrow> CHR ''h'' \<notin> set ds"
  by (auto simp: Let_def)

text \<open>The greedy \<^verbatim>\<open>(\d+)\<close> on a run of digits that ends before another character: the
  matcher's first attempt takes the whole run.\<close>

lemma rx_match_digits_first:
  assumes "ds \<noteq> []" "\<forall>c \<in> set ds. in_class Digits c" "\<not> in_class Digits x"
  shows "rx_match (Group (Plus Digits)) (ds @ x # rest) =
     ([ds], x # rest) #
     map (\<lambda>k. ([take k (ds @ x # rest)], drop k (ds @ x # rest))) (rev [1 ..< length ds])"
proof -
  have n: "0 < length ds" using assms(1) by simp
  show ?thesis
    using n
    by (simp add: takeWhile_digits_append [OF assms(2,3)] comp_def Suc_le_eq)
qed

lemma rx_match_no_digit:
  "\<not> in_class Digits x \<Longrightarrow> rx_match (Seq (Group (Plus Digits)) r) (x # rest) = []"
  by simp

text \<open>The search in a text that starts with a space, then has a number, then a rest that
  the remainder \<open>r\<close> of the pattern matches to its end.\<close>

lemma re_search_number:
  assumes "ds \<noteq> []" "\<forall>c \<in> set ds. in_class Digits c" "\<not> in_class Digits x"
    and r: "rx_match r (x # rest) = [([], [])]"
  shows "re_search (Seq (Group (Plus Digits)) r) ('' '' @ ds @ x # rest) =
     Some (ds @ x # rest, [ds])"
proof -
  let ?s = "ds @ x # rest"
  have sp: "\<not> in_class Digits CHR '' ''"
    by (simp add: Let_def)
  have "rx_match (Seq (Group (Plus Digits)) r) ?s =
      concat (map (\<lambda>(g1, r1). map (\<lambda>(g2, r2). (g1 @ g2, r2)) (rx_match r r1))
                (rx_match (Group (Plus Digits)) ?s))"
    by (simp only: rx_match.simps(4))
  then obtain more where m: "rx_match (Seq (Group (Plus Digits)) r) ?s = ([ds], []) # more"
    unfolding rx_match_digits_first [OF assms(1,2,3)] by (simp add: r del: rx_match.simps)
  obtain d ds' where ds: "ds = d # ds'"
    using assms(1) by (cases ds) auto
  have "re_search (Seq (Group (Plus Digits)) r) ('' '' @ ?s) =
      re_search (Seq (Group (Plus Digits)) r) ?s"
    using rx_match_no_digit [OF sp, of r ?s] by (simp del: rx_match.simps)
  also have "\<dots> = Some (?s, [ds])"
    using m by (simp add: ds del: rx_match.simps)
  finally show ?thesis .
qed

lemma delay_pattern_Seq:
  "delay_pattern =
     Seq (Group (Plus Digits))
       (Seq (Star Spaces)
       (Seq (Alt (Chars ''minute'') (Alt (Chars ''min'') (Alt (Chars ''hour'') (Chars ''hr''))))
       (Seq (Opt (Chars ''s''))
       (Seq (Star Spaces)
            (Alt (Chars ''late'') (Chars ''delay''))))))"
  by (simp add: delay_pattern_def)

lemma extract_delay_mins_number:
  assumes "ds \<noteq> []" "\<forall>c \<in> set ds. in_class Digits c" "\<not> in_class Digits x"
    and r: "rx_match
       (Seq (Star Spaces)
       (Seq (Alt (Chars ''minute'') (Alt (Chars ''min'') (Alt (Chars ''hour'') (Chars ''hr''))))
       (Seq (Opt (Chars ''s''))
       (Seq (Star Spaces)
            (Alt (Chars ''late'') (Chars ''delay'')))))) (x # rest) = [([], [])]"
  shows "extract_delay_mins [] (ds @ x # rest) =
     Some (if sublist ''hour'' (lower (x # rest)) then int_of_digits ds * 60
           else int_of_digits ds)"
proof -
  have s: "re_search delay_pattern ([] @ '' '' @ ds @ x # rest) = Some (ds @ x # rest, [ds])"
    unfolding delay_pattern_Seq using re_search_number [OF assms] by simp
  have "lower (ds @ x # rest) = ds @ lower (x # rest)"
    using lower_digits [OF assms(2)] by (simp add: lower_def)
  then have "py_in ''hour'' (lower (ds @ x # rest)) \<longleftrightarrow> sublist ''hour'' (lower (x # rest))"
    using sublist_Cons_append_notin [OF h_not_digit [OF assms(2)], of "''our''"]
    by (simp add: py_in_def)
  then show ?thesis
    unfolding extract_delay_mins_def Let_def s by simp
qed

text \<open>
  Claim C6 asks for the number times 60 for both spellings of the hour, \<^verbatim>\<open>hour\<close> and
  \<^verbatim>\<open>hr\<close>. The pattern accepts both, but the code multiplies only when the matched text
  holds \<^verbatim>\<open>hour\<close>. For every number, written as a non-empty string of digits: followed
  by \<^verbatim>\<open>hrs late\<close> or by \<^verbatim>\<open>hr delay\<close> it is stored as it is, a number of hours taken for
  minutes; followed by \<^verbatim>\<open>hours late\<close> it is stored times 60; followed by
  \<^verbatim>\<open>minutes late\<close> or by \<^verbatim>\<open>min delay\<close> it is stored as it is.
\<close>

theorem extract_delay_mins_hr_not_scaled:
  assumes "ds \<noteq> []" and "\<forall>c \<in> set ds. in_class Digits c"
  shows "extract_delay_mins [] (ds @ '' hrs late'') = Some (int_of_digits ds) \<and>
     extract_delay_mins [] (ds @ '' hr delay'') = Some (int_of_digits ds) \<and>
     extract_delay_mins [] (ds @ '' hours late'') = Some (int_of_digits ds * 60) \<and>
     extract_delay_mins [] (ds @ '' minutes late'') = Some (int_of_digits ds) \<and>
     extract_delay_mins [] (ds @ '' min delay'') = Some (int_of_digits ds)"
proof -
  have sp: "\<not> in_class Digits CHR '' ''"
    by (simp add: Let_def)
  have a: "extract_delay_mins [] (ds @ '' hrs late'') = Some (int_of_digits ds)"
  proof -
    have r: "rx_match
       (Seq (Star Spaces)
       (Seq (Alt (Chars ''minute'') (Alt (Chars ''min'') (Alt (Chars ''hour'') (Chars ''hr''))))
       (Seq (Opt (Chars ''s''))
       (Seq (Star Spaces)
            (Alt (Chars ''late'') (Chars ''delay'')))))) '' hrs late'' = [([], [])]"
      by code_simp
    have h: "\<not> sublist ''hour'' (lower '' hrs late'')"
      by code_simp
    show ?thesis
      using extract_delay_mins_number [OF assms sp, of "''hrs late''"] r h by simp
  qed
  have b: "extract_delay_mins [] (ds @ '' hr delay'') = Some (int_of_digits ds)"
  proof -
    have r: "rx_match
       (Seq (Star Spaces)
       (Seq (Alt (Chars ''minute'') (Alt (Chars ''min'') (Alt (Chars ''hour'') (Chars ''hr''))))
       (Seq (Opt (Chars ''s''))
       (Seq (Star Spaces)
            (Alt (Chars ''late'') (Chars ''delay'')))))) '' hr delay'' = [([], [])]"
      by code_simp
    have h: "\<not> sublist ''hour'' (lower '' hr delay'')"
      by code_simp
    show ?thesis
      using extract_delay_mins_number [OF assms sp, of "''hr delay''"] r h by simp
  qed
  have c: "extract_delay_mins [] (ds @ '' hours late'') = Some (int_of_digits ds * 60)"
  proof -
    have r: "rx_match
       (Seq (Star Spaces)
       (Seq (Alt (Chars ''minute'') (Alt (Chars ''min'') (Alt (Chars ''hour'') (Chars ''hr''))))
       (Seq (Opt (Chars ''s''))
       (Seq (Star Spaces)
            (Alt (Chars ''late'') (Chars ''delay'')))))) '' hours late'' = [([], [])]"
      by code_simp
    have h: "sublist ''hour'' (lower '' hours late'')"
      by code_simp
    show ?thesis
      using extract_delay_mins_number [OF assms sp, of "''hours late''"] r h by simp
  qed
  have d: "extract_delay_mins [] (ds @ '' minutes late'') = Some (int_of_digits ds)"
  proof -
    have r: "rx_match
       (Seq (Star Spaces)
       (Seq (Alt (Chars ''minute'') (Alt (Chars ''min'') (Alt (Chars ''hour'') (Chars ''hr''))))
       (Seq (Opt (Chars ''s''))
       (Seq (Star Spaces)
            (Alt (Chars ''late'') (Chars ''delay'')))))) '' minutes late'' = [([], [])]"
      by code_simp
    have h: "\<not> sublist ''hour'' (lower '' minutes late'')"
      by code_simp
    show ?thesis
      using extract_delay_mins_number [OF assms sp, of "''minutes late''"] r h by simp
  qed
  have e: "extract_delay_mins [] (ds @ '' min delay'') = Some (int_of_digits ds)"
  proof -
    have r: "rx_match
       (Seq (Star Spaces)
       (Seq (Alt (Chars ''minute'') (Alt (Chars ''min'') (Alt (Chars ''hour'') (Chars ''hr''))))
       (Seq (Opt (Chars ''s''))
       (Seq (Star Spaces)
            (Alt (Chars ''late'') (Chars ''delay'')))))) '' min delay'' = [([], [])]"
      by code_simp
    have h: "\<not> sublist ''hour'' (lower '' min delay'')"
      by code_simp
    show ?thesis
      using extract_delay_mins_number [OF assms sp, of "''min delay''"] r h by simp
  qed
  show ?thesis
    by (intro conjI) (rule a, rule b, rule c, rule d, rule e)
qed

text \<open>The number 2: \<^verbatim>\<open>2 hrs late\<close> is stored as 2 minutes, \<^verbatim>\<open>2 hours late\<close> as 120; and
  two texts of other shapes.\<close>

theorem extract_delay_mins_hr_not_scaled_witness:
  "extract_delay_mins [] ''2 hrs late'' = Some 2 \<and>
   extract_delay_mins [] ''2 hours late'' = Some 120 \<and>
   extract_delay_mins [] ''45 minutes late'' = Some 45 \<and>
   extract_delay_mins ''Delay'' ''Your train was 2 HR delayed'' = Some 2 \<and>
   extract_delay_mins ''Delay'' ''Your train was 2 Hours delayed'' = Some 120"
proof -
  have d2: "''2'' \<noteq> []" "\<forall>c \<in> set ''2''. in_class Digits c"
    and d45: "''45'' \<noteq> []" "\<forall>c \<in> set ''45''. in_class Digits c"
    by (simp_all add: Let_def)
  have v: "int_of_digits ''2'' = 2" "int_of_digits ''45'' = 45"
    by code_simp+
  have a: "extract_delay_mins [] ''2 hrs late'' = Some 2"
    and b: "extract_delay_mins [] ''2 hours late'' = Some 120"
    using extract_delay_mins_hr_not_scaled [OF d2] v by simp_all
  have c: "extract_delay_mins [] ''45 minutes late'' = Some 45"
    using extract_delay_mins_hr_not_scaled [OF d45] v by simp
  have d: "extract_delay_mins ''Delay'' ''Your train was 2 HR delayed'' = Some 2"
    by code_simp
  have e: "extract_delay_mins ''Delay'' ''Your train was 2 Hours delayed'' = Some 120"
    by code_simp
  show ?thesis
    by (intro conjI) (rule a, rule b, rule c, rule d, rule e)
qed

subsection \<open>The stations\<close>

lemma found_stations_filter:
  "found_stations text = filter (\<lambda>station. sublist (lower station) (lower text)) UK_STATIONS"
  by (simp add: found_stations_def py_in_def)

lemma distinct_UK_STATIONS: "distinct UK_STATIONS"
  by (simp add: UK_STATIONS_def)

lemma filter_eq_of_set:
  assumes "set (filter P xs) = S"
  shows "filter P xs = filter (\<lambda>x. x \<in> S) xs"
proof (rule filter_cong [OF refl])
  fix x
  assume "x \<in> set xs"
  then show "P x = (x \<in> S)"
    using assms by auto
qed

lemma found_stations_paddington_bristol:
  assumes "set (found_stations text) = {''London Paddington'', ''Bristol Temple Meads''}"
  shows "found_stations text = [''London Paddington'', ''Bristol Temple Meads'']"
proof -
  have "found_stations text =
      filter (\<lambda>x. x \<in> {''London Paddington'', ''Bristol Temple Meads''}) UK_STATIONS"
    using assms unfolding found_stations_filter by (rule filter_eq_of_set)
  then show ?thesis
    by (simp add: UK_STATIONS_def)
qed

lemma found_stations_leeds:
  assumes "set (found_stations text) = {''Leeds''}"
  shows "found_stations text = [''Leeds'']"
proof -
  have "found_stations text = filter (\<lambda>x. x \<in> {''Leeds''}) UK_STATIONS"
    using assms unfolding found_stations_filter by (rule filter_eq_of_set)
  then show ?thesis
    by (simp add: UK_STATIONS_def)
qed

lemma found_stations_paddington_then_bristol:
  assumes "sublist (lower ''London Paddington'') (lower text)"
    and "sublist (lower ''Bristol Temple Meads'') (lower text)"
    and "\<forall>station \<in> set (takeWhile (\<lambda>s. s \<noteq> ''Bristol Temple Meads'') UK_STATIONS).
           station \<noteq> ''London Paddington'' \<longrightarrow> \<not> sublist (lower station) (lower text)"
  shows "\<exists>rest. found_stations text = ''London Paddington'' # ''Bristol Temple Meads'' # rest"
  using assms by (simp add: found_stations_filter UK_STATIONS_def)

text \<open>
  Claim C8, as amended. The stations found in a text are the stations of the gazetteer
  whose name occurs in the text, letter case aside, each once and in the order of the
  gazetteer. With two or more stations found, the origin is the first and the destination
  the second of them; with one station found it is the origin and there is no
  destination. A text that contains London Paddington and Bristol Temple Meads, in
  whatever order, and no other station that the gazetteer lists before Bristol Temple
  Meads, has the origin London Paddington and the destination Bristol Temple Meads; so
  has, in particular, a text whose stations are these two. A text whose only station is
  Leeds has the origin Leeds and no destination.
\<close>

theorem extract_stations_gazetteer_order:
  "set (found_stations text) =
     {station \<in> set UK_STATIONS. sublist (lower station) (lower text)} \<and>
   subseq (found_stations text) UK_STATIONS \<and>
   distinct (found_stations text) \<and>
   (2 \<le> length (found_stations (subject @ '' '' @ body)) \<longrightarrow>
      extract_stations subject body =
        (Some (found_stations (subject @ '' '' @ body) ! 0),
         Some (found_stations (subject @ '' '' @ body) ! 1))) \<and>
   (length (found_stations (subject @ '' '' @ body)) = 1 \<longrightarrow>
      extract_stations subject body =
        (Some (found_stations (subject @ '' '' @ body) ! 0), None)) \<and>
   (found_stations (subject @ '' '' @ body) = [] \<longrightarrow>
      extract_stations subject body = (None, None)) \<and>
   (sublist (lower ''London Paddington'') (lower (subject @ '' '' @ body)) \<and>
    sublist (lower ''Bristol Temple Meads'') (lower (subject @ '' '' @ body)) \<and>
    (\<forall>station \<in> set (takeWhile (\<lambda>s. s \<noteq> ''Bristol Temple Meads'') UK_STATIONS).
       station \<noteq> ''London Paddington'' \<longrightarrow>
       \<not> sublist (lower station) (lower (subject @ '' '' @ body))) \<longrightarrow>
      extract_stations subject body =
        (Some ''London Paddington'', Some ''Bristol Temple Meads'')) \<and>
   (set (found_stations (subject @ '' '' @ body)) =
      {''London Paddington'', ''Bristol Temple Meads''} \<longrightarrow>
      extract_stations subject body =
        (Some ''London Paddington'', Some ''Bristol Temple Meads'')) \<and>
   (set (found_stations (subject @ '' '' @ body)) = {''Leeds''} \<longrightarrow>
      extract_stations subject body = (Some ''Leeds'', None))"
proof -
  let ?found = "found_stations (subject @ '' '' @ body)"
  have a: "set (found_stations text) =
     {station \<in> set UK_STATIONS. sublist (lower station) (lower text)}"
    unfolding found_stations_filter by (rule set_filter)
  have b: "subseq (found_stations text) UK_STATIONS"
    unfolding found_stations_filter by (rule subseq_filter_left)
  have c: "distinct (found_stations text)"
    unfolding found_stations_filter by (rule distinct_filter [OF distinct_UK_STATIONS])
  have d: "2 \<le> length ?found \<longrightarrow>
      extract_stations subject body = (Some (?found ! 0), Some (?found ! 1))"
    by (simp add: extract_stations_def Let_def)
  have e: "length ?found = 1 \<longrightarrow> extract_stations subject body = (Some (?found ! 0), None)"
    by (simp add: extract_stations_def Let_def)
  have f: "?found = [] \<longrightarrow> extract_stations subject body = (None, None)"
    by (simp add: extract_stations_def Let_def)
  have w: "sublist (lower ''London Paddington'') (lower (subject @ '' '' @ body)) \<and>
    sublist (lower ''Bristol Temple Meads'') (lower (subject @ '' '' @ body)) \<and>
    (\<forall>station \<in> set (takeWhile (\<lambda>s. s \<noteq> ''Bristol Temple Meads'') UK_STATIONS).
       station \<noteq> ''London Paddington'' \<longrightarrow>
       \<not> sublist (lower station) (lower (subject @ '' '' @ body))) \<longrightarrow>
      extract_stations subject body =
        (Some ''London Paddington'', Some ''Bristol Temple Meads'')"
  proof (intro impI, elim conjE)
    assume "sublist (lower ''London Paddington'') (lower (subject @ '' '' @ body))"
      and "sublist (lower ''Bristol Temple Meads'') (lower (subject @ '' '' @ body))"
      and "\<forall>station \<in> set (takeWhile (\<lambda>s. s \<noteq> ''Bristol Temple Meads'') UK_STATIONS).
       station \<noteq> ''London Paddington'' \<longrightarrow>
       \<not> sublist (lower station) (lower (subject @ '' '' @ body))"
    then obtain rest where "?found = ''London Paddington'' # ''Bristol Temple Meads'' # rest"
      using found_stations_paddington_then_bristol by blast
    then show "extract_stations subject body =
        (Some ''London Paddington'', Some ''Bristol Temple Meads'')"
      by (simp add: extract_stations_def Let_def)
  qed
  have g: "set ?found = {''London Paddington'', ''Bristol Temple Meads''} \<longrightarrow>
      extract_stations subject body =
        (Some ''London Paddington'', Some ''Bristol Temple Meads'')"
  proof
    assume "set ?found = {''London Paddington'', ''Bristol Temple Meads''}"
    then have "?found = [''London Paddington'', ''Bristol Temple Meads'']"
      by (rule found_stations_paddington_bristol)
    then show "extract_stations subject body =
        (Some ''London Paddington'', Some ''Bristol Temple Meads'')"
      by (simp add: extract_stations_def Let_def)
  qed
  have h: "set ?found = {''Leeds''} \<longrightarrow>
      extract_stations subject body = (Some ''Leeds'', None)"
  proof
    assume "set ?found = {''Leeds''}"
    then have "?found = [''Leeds'']"
      by (rule found_stations_leeds)
    then show "extract_stations subject body = (Some ''Leeds'', None)"
      by (simp add: extract_stations_def Let_def)
  qed
  show ?thesis
    by (intro conjI) (rule a, rule b, rule c, rule d, rule e, rule f, rule w, rule g, rule h)
qed

text \<open>A text that names Bristol Temple Meads before London Paddington, one that names
  Leeds only, and one that names York after the two: York follows Bristol Temple Meads in
  the gazetteer.\<close>

theorem extract_stations_gazetteer_order_witness:
  "extract_stations ''Your journey'' ''from Bristol Temple Meads to london paddington'' =
     (Some ''London Paddington'', Some ''Bristol Temple Meads'') \<and>
   extract_stations ''Your journey'' ''Arriving at Leeds at 10:42'' = (Some ''Leeds'', None) \<and>
   extract_stations ''Your journey'' ''London Paddington to Bristol Temple Meads, not York'' =
     (Some ''London Paddington'', Some ''Bristol Temple Meads'')"
proof -
  let ?t1 = "''Your journey'' @ '' '' @ ''from Bristol Temple Meads to london paddington''"
  let ?t2 = "''Your journey'' @ '' '' @ ''Arriving at Leeds at 10:42''"
  let ?t3 = "''Your journey'' @ '' '' @ ''London Paddington to Bristol Temple Meads, not York''"
  have "found_stations ?t1 = [''London Paddington'', ''Bristol Temple Meads'']"
    by code_simp
  then have a: "set (found_stations ?t1) = {''London Paddington'', ''Bristol Temple Meads''}"
    by (simp only: list.set)
  have "found_stations ?t2 = [''Leeds'']"
    by code_simp
  then have b: "set (found_stations ?t2) = {''Leeds''}"
    by (simp only: list.set)
  have c: "sublist (lower ''London Paddington'') (lower ?t3)"
    "sublist (lower ''Bristol Temple Meads'') (lower ?t3)"
    "\<forall>station \<in> set (takeWhile (\<lambda>s. s \<noteq> ''Bristol Temple Meads'') UK_STATIONS).
       station \<noteq> ''London Paddington'' \<longrightarrow> \<not> sublist (lower station) (lower ?t3)"
    by code_simp+
  note t1 = extract_stations_gazetteer_order
        [of "[]" "''Your journey''" "''from Bristol Temple Meads to london paddington''"]
  note t2 = extract_stations_gazetteer_order
        [of "[]" "''Your journey''" "''Arriving at Leeds at 10:42''"]
  note t3 = extract_stations_gazetteer_order
        [of "[]" "''Your journey''" "''London Paddington to Bristol Temple Meads, not York''"]
  have g: "extract_stations ''Your journey'' ''from Bristol Temple Meads to london paddington'' =
     (Some ''London Paddington'', Some ''Bristol Temple Meads'')"
    using t1 a by (elim conjE) (erule mp)
  have h: "extract_stations ''Your journey'' ''Arriving at Leeds at 10:42'' = (Some ''Leeds'', None)"
    using t2 b by (elim conjE) (erule mp)
  have k: "extract_stations ''Your journey''
      ''London Paddington to Bristol Temple Meads, not York'' =
     (Some ''London Paddington'', Some ''Bristol Temple Meads'')"
    using t3 c by (elim conjE) (erule mp, intro conjI, assumption+)
  show ?thesis
    by (intro conjI) (rule g, rule h, rule k)
qed

text \<open>
  Claim C8 as the specification states it gives the origin London Paddington and the
  destination Bristol Temple Meads to every text that contains the two. A text that
  contains Leeds as well has the destination Leeds, which the gazetteer lists before
  Bristol Temple Meads.
\<close>

theorem extract_stations_third_station_counterexample:
  "sublist (lower ''London Paddington'')
     (lower ([] @ '' '' @ ''London Paddington to Bristol Temple Meads via Leeds'')) \<and>
   sublist (lower ''Bristol Temple Meads'')
     (lower ([] @ '' '' @ ''London Paddington to Bristol Temple Meads via Leeds'')) \<and>
   extract_stations [] ''London Paddington to Bristol Temple Meads via Leeds'' =
     (Some ''London Paddington'', Some ''Leeds'')"
  by code_simp

end
